theory Spec2Isabelle
  imports Complex_Main "HOL-Library.AList"
begin

section \<open>PPO-Lag: the Lagrange multiplier and the constrained policy loss\<close>

text \<open>
  A shallow embedding of \<^verbatim>\<open>src/agents/naive_lagrange.py\<close> (class NaiveLagrange) and
  \<^verbatim>\<open>src/agents/ppolag.py\<close> (class PPOLagLoss).

  Conventions of the model:
  \<^item> tensor elements are real numbers: rounding, overflow, infinities and NaN of the
    floating-point tensors are outside the model, with one exception: the underflow of the
    exponential inside the positivity map, which decides whether the multiplier is zero,
    is kept in \<open>softplus_float32\<close>. In particular the mean of a tensor
    without elements is NaN in torch and \<open>0\<close> here, so the value of a mean in the model
    stands for the value in torch only when the tensor has an element;
  \<^item> a tensor is its shape and its elements in row-major order; a zero-dimensional
    tensor (the parameter \<^verbatim>\<open>lag\<close>, every loss) is a real number;
  \<^item> \<^verbatim>\<open>detach()\<close> changes no value and is the identity;
  \<^item> Python exceptions are values of the type \<open>error\<close>, and every function that can raise
    returns \<open>error + 'a\<close>;
  \<^item> tensordicts are objects of a heap, so that the input batch and its scratch copy can
    share tensors; the library calls on them (\<^verbatim>\<open>get\<close>, \<^verbatim>\<open>set\<close>, \<^verbatim>\<open>clone\<close>) follow the
    tensordict documentation;
  \<^item> the actor, the critics, the value estimators and \<^verbatim>\<open>distance_loss\<close> are not part of
    the two files: they are fields of the loss module, functions that read the heap and
    return the tensors they write into the tensordict they are given.
\<close>

subsection \<open>Errors\<close>

datatype error =
    KeyError            \<comment> \<open>a key that the tensordict does not hold\<close>
  | IndexError          \<comment> \<open>\<^verbatim>\<open>t[:, a:b]\<close> on a tensor with fewer than two dimensions\<close>
  | TypeError           \<comment> \<open>a tensordict where a tensor is needed, or the reverse\<close>
  | AssertionError      \<comment> \<open>the \<^verbatim>\<open>assert\<close> of line 99 of ppolag.py\<close>
  | RecursionError      \<comment> \<open>a tensordict nested deeper than the heap is large\<close>
  | ExternalError       \<comment> \<open>raised inside one of the modules that are not in the two files\<close>

definition bind :: "error + 'a \<Rightarrow> ('a \<Rightarrow> error + 'b) \<Rightarrow> error + 'b" where
  "bind m f = (case m of Inl e \<Rightarrow> Inl e | Inr x \<Rightarrow> f x)"

subsection \<open>Tensors\<close>

record tensor =
  shape :: "nat list"
  elems :: "real list"

definition numel :: "tensor \<Rightarrow> nat" where
  "numel t = length (elems t)"

definition tensor_map :: "(real \<Rightarrow> real) \<Rightarrow> tensor \<Rightarrow> tensor" where
  "tensor_map f t = \<lparr>shape = shape t, elems = map f (elems t)\<rparr>"

text \<open>
  A binary operation of two tensors of one shape, element by element. The loss applies
  these only after its assertion that the shapes agree, so broadcasting never happens.
\<close>

definition tensor_map2 :: "(real \<Rightarrow> real \<Rightarrow> real) \<Rightarrow> tensor \<Rightarrow> tensor \<Rightarrow> tensor" where
  "tensor_map2 f a b = \<lparr>shape = shape a, elems = map2 f (elems a) (elems b)\<rparr>"

definition tensor_exp :: "tensor \<Rightarrow> tensor" where
  "tensor_exp t = tensor_map exp t"

definition tensor_neg :: "tensor \<Rightarrow> tensor" where
  "tensor_neg t = tensor_map uminus t"

definition tensor_scale :: "real \<Rightarrow> tensor \<Rightarrow> tensor" where
  \<comment> \<open>a zero-dimensional tensor times a tensor\<close>
  "tensor_scale k t = tensor_map (\<lambda>x. k * x) t"

definition tensor_mul :: "tensor \<Rightarrow> tensor \<Rightarrow> tensor" where
  "tensor_mul a b = tensor_map2 (*) a b"

definition tensor_add :: "tensor \<Rightarrow> tensor \<Rightarrow> tensor" where
  "tensor_add a b = tensor_map2 (+) a b"

definition clamp :: "real \<Rightarrow> real \<Rightarrow> tensor \<Rightarrow> tensor" where
  \<comment> \<open>\<^verbatim>\<open>t.clamp(lo, hi)\<close>: \<open>min(max(x, lo), hi)\<close> on every element\<close>
  "clamp lo hi t = tensor_map (\<lambda>x. min (max x lo) hi) t"

definition tensor_mean :: "tensor \<Rightarrow> real" where
  "tensor_mean t = sum_list (elems t) / real (numel t)"

definition tensor_std :: "tensor \<Rightarrow> real" where
  \<comment> \<open>\<^verbatim>\<open>t.std()\<close>: the sample standard deviation, with Bessel's correction\<close>
  "tensor_std t =
     sqrt (sum_list (map (\<lambda>x. (x - tensor_mean t)\<^sup>2) (elems t)) / real (numel t - 1))"

definition stack_last :: "tensor \<Rightarrow> tensor \<Rightarrow> tensor" where
  \<comment> \<open>\<^verbatim>\<open>torch.stack([a, b], -1)\<close>: a new last dimension of size 2\<close>
  "stack_last a b =
     \<lparr>shape = shape a @ [2], elems = concat (map2 (\<lambda>x y. [x, y]) (elems a) (elems b))\<rparr>"

function chunks :: "nat \<Rightarrow> 'a list \<Rightarrow> 'a list list" where
  "chunks n xs = (if n = 0 \<or> xs = [] then [] else take n xs # chunks n (drop n xs))"
  by pat_completeness auto
termination
  by (relation "measure (\<lambda>(n, xs). length xs)") auto

definition min_last :: "tensor \<Rightarrow> tensor" where
  \<comment> \<open>\<^verbatim>\<open>t.min(dim=-1)[0]\<close>: the minimum along the last dimension\<close>
  "min_last t =
     \<lparr>shape = butlast (shape t),
      elems = map (\<lambda>c. fold min (tl c) (hd c)) (chunks (last (shape t)) (elems t))\<rparr>"

definition index_cols :: "tensor \<Rightarrow> nat \<Rightarrow> nat option \<Rightarrow> error + tensor" where
  \<comment> \<open>\<^verbatim>\<open>t[:, lo:hi]\<close>, with \<open>hi = None\<close> for \<^verbatim>\<open>t[:, lo:]\<close>: a slice of the second dimension\<close>
  "index_cols t lo hi =
     (case shape t of
        b # k # rest \<Rightarrow>
          (let inner = prod_list rest;
               stop = (case hi of None \<Rightarrow> k | Some h \<Rightarrow> min h k);
               start = min lo stop
           in Inr \<lparr>shape = b # (stop - start) # rest,
                   elems = concat (map (\<lambda>i. take ((stop - start) * inner)
                                               (drop ((i * k + start) * inner) (elems t)))
                                       [0..<b])\<rparr>)
      | _ \<Rightarrow> Inl IndexError)"

subsection \<open>The positivity map\<close>

definition softplus :: "real \<Rightarrow> real" where
  \<comment> \<open>\<^verbatim>\<open>torch.nn.functional.softplus\<close> with its default \<open>beta = 1\<close>. Above its threshold
      (20) torch returns the argument itself, which agrees with this value to rounding.\<close>
  "softplus x = ln (1 + exp x)"

text \<open>
  The parameter \<^verbatim>\<open>lag\<close> is a single-precision tensor (\<^verbatim>\<open>torch.tensor\<close> of a Python float), and
  on it torch evaluates \<^verbatim>\<open>softplus(x)\<close> as \<^verbatim>\<open>x\<close> above the threshold 20 and as
  \<^verbatim>\<open>log1p(exp(x))\<close> otherwise. Of the rounding, \<open>softplus_float32\<close> keeps the one effect that
  decides whether the result is zero: in round-to-nearest the exponential is \<open>0\<close> where its
  real value is at most \<open>1 / 2 ^ 150\<close>, half of the smallest positive single-precision number
  \<open>1 / 2 ^ 149\<close>, and \<^verbatim>\<open>log1p(0)\<close> is \<open>0\<close>. Where the exponential does not underflow and the
  argument is at most 20, \<open>softplus_float32\<close> is \<open>softplus\<close>.
\<close>

definition exp_float32 :: "real \<Rightarrow> real" where
  \<comment> \<open>\<^verbatim>\<open>exp\<close> on a single-precision tensor: zero where the real value rounds to zero\<close>
  "exp_float32 x = (if exp x \<le> 1 / 2 ^ 150 then 0 else exp x)"

definition softplus_float32 :: "real \<Rightarrow> real" where
  \<comment> \<open>\<^verbatim>\<open>torch.nn.functional.softplus\<close> with its defaults \<open>beta = 1\<close> and \<open>threshold = 20\<close>\<close>
  "softplus_float32 x = (if 20 < x then x else ln (1 + exp_float32 x))"

definition inv_softplus :: "real \<Rightarrow> real" where
  \<comment> \<open>Modelled from the spec: \<^verbatim>\<open>tensordict.nn.inv_softplus\<close> is imported from a library and
      is not under src/; the spec calls it the inverse of the positivity map.\<close>
  "inv_softplus y = ln (exp y - 1)"

subsection \<open>Tensordicts on a heap\<close>

text \<open>
  An object is a tensor or a tensordict, whose entries name other objects by address.
  Addresses are positions in the heap; a new object is appended.
\<close>

datatype obj = Tensor tensor | TDict "(string \<times> nat) list"

type_synonym heap = "obj list"

type_synonym key = "string list"    \<comment> \<open>\<^verbatim>\<open>'a'\<close> is \<open>[''a'']\<close>, \<^verbatim>\<open>('next', 'reward')\<close> is \<open>[''next'', ''reward'']\<close>\<close>

definition lookup :: "heap \<Rightarrow> nat \<Rightarrow> obj option" where
  "lookup h a = (if a < length h then Some (h ! a) else None)"

fun td_get :: "heap \<Rightarrow> nat \<Rightarrow> key \<Rightarrow> error + nat" where
  "td_get h a [] = Inl KeyError"
| "td_get h a [k] =
     (case lookup h a of
        Some (TDict kvs) \<Rightarrow> (case map_of kvs k of None \<Rightarrow> Inl KeyError | Some c \<Rightarrow> Inr c)
      | _ \<Rightarrow> Inl TypeError)"
| "td_get h a (k # k' # ks) =
     (case lookup h a of
        Some (TDict kvs) \<Rightarrow>
          (case map_of kvs k of None \<Rightarrow> Inl KeyError | Some c \<Rightarrow> td_get h c (k' # ks))
      | _ \<Rightarrow> Inl TypeError)"

definition td_get_tensor :: "heap \<Rightarrow> nat \<Rightarrow> key \<Rightarrow> error + tensor" where
  \<comment> \<open>\<^verbatim>\<open>td.get(key)\<close> where the caller goes on to use the value as a tensor\<close>
  "td_get_tensor h a ks =
     bind (td_get h a ks) (\<lambda>c. case lookup h c of Some (Tensor t) \<Rightarrow> Inr t | _ \<Rightarrow> Inl TypeError)"

fun td_set :: "heap \<Rightarrow> nat \<Rightarrow> key \<Rightarrow> nat \<Rightarrow> error + heap" where
  "td_set h a [] v = Inl KeyError"
| "td_set h a [k] v =
     (case lookup h a of
        Some (TDict kvs) \<Rightarrow> Inr (h[a := TDict (AList.update k v kvs)])
      | _ \<Rightarrow> Inl TypeError)"
| "td_set h a (k # k' # ks) v =
     (case lookup h a of
        Some (TDict kvs) \<Rightarrow>
          (case map_of kvs k of
             Some c \<Rightarrow> td_set h c (k' # ks) v
           | None \<Rightarrow>
               td_set ((h @ [TDict []])[a := TDict (AList.update k (length h) kvs)])
                 (length h) (k' # ks) v)
      | _ \<Rightarrow> Inl TypeError)"

definition td_set_tensor :: "heap \<Rightarrow> nat \<Rightarrow> key \<Rightarrow> tensor \<Rightarrow> error + heap" where
  \<comment> \<open>\<^verbatim>\<open>td.set(key, tensor)\<close>: the entry names the tensor; a missing nested tensordict on
      the way is created\<close>
  "td_set_tensor h a ks t = td_set (h @ [Tensor t]) a ks (length h)"

type_synonym writes = "(key \<times> tensor) list"

fun td_write :: "heap \<Rightarrow> nat \<Rightarrow> writes \<Rightarrow> error + heap" where
  "td_write h a [] = Inr h"
| "td_write h a ((ks, t) # ws) = bind (td_set_tensor h a ks t) (\<lambda>h'. td_write h' a ws)"

text \<open>
  \<^verbatim>\<open>td.clone(recurse=False)\<close> copies the tree of tensordicts and shares the tensors: every
  nested tensordict is a new object, every tensor entry names the tensor of the original.
  The recursion follows the heap, so it carries fuel; the loss gives it more fuel than the
  heap has objects.
\<close>

fun clone_False :: "nat \<Rightarrow> heap \<Rightarrow> nat \<Rightarrow> error + heap \<times> nat"
  and clone_items :: "nat \<Rightarrow> heap \<Rightarrow> (string \<times> nat) list \<Rightarrow> error + heap \<times> (string \<times> nat) list"
where
  "clone_False 0 h a = Inl RecursionError"
| "clone_False (Suc n) h a =
     (case lookup h a of
        None \<Rightarrow> Inl TypeError
      | Some (Tensor t) \<Rightarrow> Inr (h, a)
      | Some (TDict kvs) \<Rightarrow>
          bind (clone_items n h kvs) (\<lambda>(h', kvs'). Inr (h' @ [TDict kvs'], length h')))"
| "clone_items n h [] = Inr (h, [])"
| "clone_items n h ((k, c) # kvs) =
     bind (clone_False n h c) (\<lambda>(h1, c').
     bind (clone_items n h1 kvs) (\<lambda>(h2, kvs'). Inr (h2, (k, c') # kvs')))"

text \<open>
  The objects from address \<open>b\<close> on are closed when each tensordict among them names only
  objects of the heap, and names tensordicts only from address \<open>b\<close> on. The scratch copy
  keeps this property, with \<open>b\<close> the size of the heap before the copy was made.
\<close>

definition scratch_closed :: "nat \<Rightarrow> heap \<Rightarrow> bool" where
  "scratch_closed b h \<longleftrightarrow>
     (\<forall>a kvs k c. b \<le> a \<longrightarrow> a < length h \<longrightarrow> h ! a = TDict kvs \<longrightarrow> (k, c) \<in> set kvs \<longrightarrow>
        c < length h \<and> (\<forall>kvs'. h ! c = TDict kvs' \<longrightarrow> b \<le> c))"

definition scratch_inv :: "heap \<Rightarrow> heap \<Rightarrow> bool" where
  \<comment> \<open>\<open>h\<close> is the heap \<open>h0\<close> followed by closed objects\<close>
  "scratch_inv h0 h \<longleftrightarrow> take (length h0) h = h0 \<and> scratch_closed (length h0) h"

subsection \<open>NaiveLagrange\<close>

record NaiveLagrange =
  lag :: real
  cost_limit :: real

definition NaiveLagrange_init :: "real \<Rightarrow> real \<Rightarrow> NaiveLagrange" where
  "NaiveLagrange_init initial_value limit = \<lparr>lag = inv_softplus initial_value, cost_limit = limit\<rparr>"

definition lagrangian_loss :: "real \<Rightarrow> real \<Rightarrow> real" where
  \<comment> \<open>the product \<^verbatim>\<open>-softplus(lag) * avg_violation\<close> that both modules form, as a function
      of the raw parameter: line 28 of naive_lagrange.py and line 66 of ppolag.py\<close>
  "lagrangian_loss raw avg_violation = - softplus raw * avg_violation"

definition NaiveLagrange_forward :: "NaiveLagrange \<Rightarrow> heap \<Rightarrow> nat \<Rightarrow> real \<Rightarrow> error + tensor" where
  "NaiveLagrange_forward self h tdict cost_scale =
     bind (td_get_tensor h tdict [''avg_violation''])
       (\<lambda>av. Inr (tensor_map (\<lambda>v. lagrangian_loss (lag self) v * cost_scale) av))"

definition NaiveLagrange_get :: "NaiveLagrange \<Rightarrow> real" where
  "NaiveLagrange_get self = softplus (lag self)"


definition sgd_step :: "real \<Rightarrow> real \<Rightarrow> NaiveLagrange \<Rightarrow> NaiveLagrange" where
  \<comment> \<open>Modelled from the spec: the dual-update step, one step of gradient descent with
      learning rate \<open>lr\<close> on the parameter \<^verbatim>\<open>lag\<close>, where \<open>g\<close> is the derivative of the loss
      with respect to \<^verbatim>\<open>lag\<close>. The optimiser and the training loop are not under src/.\<close>
  "sgd_step lr g self = self\<lparr>lag := lag self - lr * g\<rparr>"

subsection \<open>PPOLagLoss\<close>

text \<open>
  The attributes of the loss module that \<^verbatim>\<open>forward\<close> reads. Those set by the constructor of
  the base class \<^verbatim>\<open>ClipPPOLoss\<close> (not under src/) are fields like the others. The type \<open>'p\<close>
  is a set of network parameters, \<open>'d\<close> an action distribution.

  The callable attributes are called with the scratch tensordict \<open>tmp\<close> as an address in the
  heap. Each returns the entries it writes into that tensordict (a network or an estimator
  writes its outputs into the tensordict it is given), or raises. That none of them
  changes a tensor in place is an assumption of this interface.
\<close>

record ('p, 'd) PPOLagLoss =
  lag :: real
  critic_params :: 'p
  target_critic_params :: 'p
  safe_critic_params :: 'p
  target_safe_critic_params :: 'p
  normalize_advantage :: bool
  entropy_bonus :: bool
  entropy_coef :: real
  critic_coef :: real
  loss_critic_type :: string
  clip_bounds :: "real \<times> real"     \<comment> \<open>\<^verbatim>\<open>self._clip_bounds\<close>, bounds of the log-weight\<close>
  advantage_key :: key
  c_advantage_key :: key
  value_target_key :: key
  c_value_target_key :: key
  value_key :: key
  c_value_key :: key
  r_value_estimator :: "'p \<Rightarrow> 'p \<Rightarrow> heap \<Rightarrow> nat \<Rightarrow> error + writes"
  c_value_estimator :: "'p \<Rightarrow> 'p \<Rightarrow> heap \<Rightarrow> nat \<Rightarrow> error + writes"
  log_weight :: "heap \<Rightarrow> nat \<Rightarrow> error + writes \<times> tensor \<times> 'd"   \<comment> \<open>\<^verbatim>\<open>self._log_weight\<close>\<close>
  get_entropy_bonus :: "'d \<Rightarrow> error + tensor"
  critic :: "heap \<Rightarrow> nat \<Rightarrow> 'p \<Rightarrow> error + writes"
  safe_critic :: "heap \<Rightarrow> nat \<Rightarrow> 'p \<Rightarrow> error + writes"
  distance_loss :: "tensor \<Rightarrow> tensor \<Rightarrow> string \<Rightarrow> error + tensor"

definition PPOLagLoss_init ::
  "('p, 'd) PPOLagLoss \<Rightarrow> ('p \<Rightarrow> 'p \<Rightarrow> heap \<Rightarrow> nat \<Rightarrow> error + writes)
     \<Rightarrow> ('p \<Rightarrow> 'p \<Rightarrow> heap \<Rightarrow> nat \<Rightarrow> error + writes) \<Rightarrow> real
     \<Rightarrow> key \<Rightarrow> key \<Rightarrow> key \<Rightarrow> key \<Rightarrow> key \<Rightarrow> key \<Rightarrow> ('p, 'd) PPOLagLoss" where
  \<comment> \<open>\<open>base\<close> is the module as the constructor of the base class and
      \<^verbatim>\<open>convert_to_functional\<close> leave it\<close>
  "PPOLagLoss_init base r_est c_est initial_lagrangian
       r_advantage_key c_adv_key r_value_target_key c_vt_key r_value_key c_v_key =
     base\<lparr>advantage_key := r_advantage_key, value_key := r_value_key,
          value_target_key := r_value_target_key,
          lag := inv_softplus initial_lagrangian,
          c_advantage_key := c_adv_key, c_value_target_key := c_vt_key,
          c_value_key := c_v_key,
          r_value_estimator := r_est, c_value_estimator := c_est\<rparr>"

definition lagrangian :: "('p, 'd) PPOLagLoss \<Rightarrow> real" where
  "lagrangian self = softplus (lag self)"


definition scratch_copy :: "heap \<Rightarrow> nat \<Rightarrow> error + heap \<times> nat" where
  \<comment> \<open>line 61: \<^verbatim>\<open>tmp_td = tdict.clone(False)\<close>\<close>
  "scratch_copy h tdict =
     (case lookup h tdict of
        Some (TDict kvs) \<Rightarrow> clone_False (Suc (length h)) h tdict
      | _ \<Rightarrow> Inl TypeError)"

definition dual_loss ::
  "('p, 'd) PPOLagLoss \<Rightarrow> heap \<Rightarrow> nat \<Rightarrow> bool \<Rightarrow> error + (string \<rightharpoonup> real)" where
  \<comment> \<open>lines 62 to 68: the output mapping after the dual branch\<close>
  "dual_loss self h tdict train_lagrangian =
     (if train_lagrangian
      then bind (td_get_tensor h tdict [''avg_violation''])
             (\<lambda>av. Inr [''loss_lagrangian'' \<mapsto> lagrangian_loss (lag self) (tensor_mean av),
                         ''lagrangian'' \<mapsto> lagrangian self])
      else Inr [''lagrangian'' \<mapsto> lagrangian self])"

definition estimator_input :: "heap \<Rightarrow> nat \<Rightarrow> nat \<Rightarrow> nat \<Rightarrow> nat option \<Rightarrow> error + heap" where
  \<comment> \<open>lines 71 and 77:
      \<^verbatim>\<open>tmp_td = tmp_td.set(('next', 'reward'), tdict.get(('next', 'reward'))[:, lo:hi])\<close>\<close>
  "estimator_input h tdict tmp lo hi =
     bind (td_get_tensor h tdict [''next'', ''reward'']) (\<lambda>reward.
     bind (index_cols reward lo hi) (\<lambda>channel.
     td_set_tensor h tmp [''next'', ''reward''] channel))"

definition r_estimator_heap :: "heap \<Rightarrow> nat \<Rightarrow> nat \<Rightarrow> error + heap" where
  \<comment> \<open>line 71: the heap in which the reward estimator is called on \<open>tmp\<close>\<close>
  "r_estimator_heap h tdict tmp = estimator_input h tdict tmp 0 (Some 1)"

definition c_estimator_heap ::
  "('p, 'd) PPOLagLoss \<Rightarrow> heap \<Rightarrow> nat \<Rightarrow> nat \<Rightarrow> error + heap" where
  \<comment> \<open>lines 71 to 77: the heap in which the cost estimator is called on \<open>tmp\<close>\<close>
  "c_estimator_heap self h tdict tmp =
     bind (r_estimator_heap h tdict tmp) (\<lambda>h2.
     bind (r_value_estimator self (critic_params self) (target_critic_params self) h2 tmp)
       (\<lambda>ws.
     bind (td_write h2 tmp ws) (\<lambda>h3.
     estimator_input h3 tdict tmp 1 None)))"

definition value_estimates ::
  "('p, 'd) PPOLagLoss \<Rightarrow> heap \<Rightarrow> nat \<Rightarrow> nat \<Rightarrow> error + heap" where
  \<comment> \<open>lines 71 to 82\<close>
  "value_estimates self h tdict tmp =
     bind (c_estimator_heap self h tdict tmp) (\<lambda>h4.
     bind (c_value_estimator self (safe_critic_params self) (target_safe_critic_params self)
             h4 tmp) (\<lambda>ws.
     td_write h4 tmp ws))"

definition standardize :: "tensor \<Rightarrow> tensor" where
  \<comment> \<open>lines 88 to 91, and again lines 92 to 95\<close>
  "standardize advantage =
     (if numel advantage > 1
      then (let loc = tensor_mean advantage;
                scale = max (tensor_std advantage) (1 / 10 ^ 6)
            in tensor_map (\<lambda>x. (x - loc) / scale) advantage)
      else advantage)"

definition advantages ::
  "('p, 'd) PPOLagLoss \<Rightarrow> heap \<Rightarrow> nat \<Rightarrow> error + tensor \<times> tensor" where
  \<comment> \<open>lines 84 to 95\<close>
  "advantages self h tmp =
     bind (td_get_tensor h tmp (advantage_key self)) (\<lambda>r_advantage.
     bind (td_get_tensor h tmp (c_advantage_key self)) (\<lambda>c_advantage.
     if normalize_advantage self
     then Inr (standardize r_advantage, standardize c_advantage)
     else Inr (r_advantage, c_advantage)))"

definition r_gain1 :: "tensor \<Rightarrow> tensor \<Rightarrow> tensor" where
  \<comment> \<open>line 101\<close>
  "r_gain1 log_w r_advantage = tensor_mul (tensor_exp log_w) r_advantage"

definition r_gain2 :: "real \<times> real \<Rightarrow> tensor \<Rightarrow> tensor \<Rightarrow> tensor" where
  \<comment> \<open>line 102, with \<open>bounds\<close> for \<^verbatim>\<open>self._clip_bounds\<close>\<close>
  "r_gain2 bounds log_w r_advantage =
     tensor_mul (tensor_exp (clamp (fst bounds) (snd bounds) log_w)) r_advantage"

definition r_gain :: "real \<times> real \<Rightarrow> tensor \<Rightarrow> tensor \<Rightarrow> tensor" where
  \<comment> \<open>line 103\<close>
  "r_gain bounds log_w r_advantage =
     min_last (stack_last (r_gain1 log_w r_advantage) (r_gain2 bounds log_w r_advantage))"

definition c_gain :: "tensor \<Rightarrow> tensor \<Rightarrow> tensor" where
  \<comment> \<open>line 104\<close>
  "c_gain log_w c_advantage = tensor_mul (tensor_exp log_w) c_advantage"

definition loss_pi ::
  "real \<Rightarrow> real \<times> real \<Rightarrow> tensor \<Rightarrow> tensor \<Rightarrow> tensor \<Rightarrow> error + real" where
  \<comment> \<open>lines 99 to 106, with \<open>lam\<close> for \<^verbatim>\<open>self.lagrangian\<close>\<close>
  "loss_pi lam bounds log_w r_advantage c_advantage =
     (if shape c_advantage = shape log_w \<and> shape r_advantage = shape log_w
      then Inr (tensor_mean (tensor_add (tensor_neg (r_gain bounds log_w r_advantage))
                               (tensor_scale lam (c_gain log_w c_advantage)))
                  / (1 + lam))
      else Inl AssertionError)"

definition critic_loss ::
  "('p, 'd) PPOLagLoss \<Rightarrow> heap \<Rightarrow> nat \<Rightarrow> key \<Rightarrow> (heap \<Rightarrow> nat \<Rightarrow> 'p \<Rightarrow> error + writes)
     \<Rightarrow> 'p \<Rightarrow> key \<Rightarrow> error + heap \<times> tensor" where
  \<comment> \<open>lines 116 to 121, and again lines 123 to 128\<close>
  "critic_loss self h tmp target_key network params pred_key =
     bind (td_get_tensor h tmp target_key) (\<lambda>target.
     bind (network h tmp params) (\<lambda>ws.
     bind (td_write h tmp ws) (\<lambda>h'.
     bind (td_get_tensor h' tmp pred_key) (\<lambda>pred.
     bind (distance_loss self target pred (loss_critic_type self)) (\<lambda>l.
     Inr (h', tensor_scale (critic_coef self) l))))))"

definition actor_inputs ::
  "('p, 'd) PPOLagLoss \<Rightarrow> heap \<Rightarrow> nat \<Rightarrow> bool
     \<Rightarrow> error + heap \<times> nat \<times> (string \<rightharpoonup> real) \<times> tensor \<times> 'd \<times> tensor \<times> tensor" where
  \<comment> \<open>lines 61 to 98: the heap, the scratch copy, the output mapping so far, the log-weight,
      the distribution and the two advantages, as they are when the assertion is reached\<close>
  "actor_inputs self h tdict train_lagrangian =
     bind (scratch_copy h tdict) (\<lambda>(h1, tmp).
     bind (dual_loss self h1 tdict train_lagrangian) (\<lambda>td_out.
     bind (value_estimates self h1 tdict tmp) (\<lambda>h5.
     bind (advantages self h5 tmp) (\<lambda>(r_advantage, c_advantage).
     bind (log_weight self h5 tmp) (\<lambda>(ws, log_w, dist').
     bind (td_write h5 tmp ws) (\<lambda>h6.
     Inr (h6, tmp, td_out, log_w, dist', r_advantage, c_advantage)))))))"

definition forward ::
  "('p, 'd) PPOLagLoss \<Rightarrow> heap \<Rightarrow> nat \<Rightarrow> bool \<Rightarrow> error + heap \<times> (string \<rightharpoonup> real)" where
  \<comment> \<open>the heap when the call returns, and the output mapping \<^verbatim>\<open>td_out\<close>\<close>
  "forward self h tdict train_lagrangian =
     bind (actor_inputs self h tdict train_lagrangian)
       (\<lambda>(h6, tmp, td_out, log_w, dist', r_advantage, c_advantage).
     bind (loss_pi (lagrangian self) (clip_bounds self) log_w r_advantage c_advantage)
       (\<lambda>lp.
     bind (get_entropy_bonus self dist') (\<lambda>entropy.
     bind (critic_loss self h6 tmp (value_target_key self) (critic self)
             (critic_params self) (value_key self)) (\<lambda>(h7, loss_r_critic).
     bind (critic_loss self h7 tmp (c_value_target_key self) (safe_critic self)
             (safe_critic_params self) (c_value_key self)) (\<lambda>(h8, loss_c_critic).
     Inr (h8,
          ((if entropy_bonus self
            then td_out(''loss_pi'' \<mapsto> lp,
                        ''loss_entropy'' \<mapsto> - entropy_coef self * tensor_mean entropy)
            else td_out(''loss_pi'' \<mapsto> lp))
           (''entropy'' \<mapsto> tensor_mean entropy,
            ''loss_r_critic'' \<mapsto> tensor_mean loss_r_critic,
            ''loss_c_critic'' \<mapsto> tensor_mean loss_c_critic))))))))"

subsection \<open>The actor loss as the specification words it\<close>

definition spec_actor_loss :: "real \<Rightarrow> real \<times> real \<Rightarrow> tensor \<Rightarrow> tensor \<Rightarrow> tensor \<Rightarrow> real" where
  \<comment> \<open>the mean over the elements of \<open>- reward_surrogate_gain + \<lambda> * cost_gain\<close>, divided by
      \<open>1 + \<lambda>\<close>, the three tensors read element by element\<close>
  "spec_actor_loss lam bounds log_w r_advantage c_advantage =
     (let terms = map (\<lambda>(l, a, c).
                    - min (exp l * a) (exp (min (max l (fst bounds)) (snd bounds)) * a)
                    + lam * (exp l * c))
                  (zip (elems log_w) (zip (elems r_advantage) (elems c_advantage)))
      in (sum_list terms / real (length terms)) / (1 + lam))"

subsection \<open>A batch and a loss module to run the definitions on\<close>

text \<open>
  A batch of four transitions: \<^verbatim>\<open>avg_violation\<close> of mean 3 and a two-channel reward, nested
  under \<^verbatim>\<open>next\<close>. The tensordict of the batch is object 3.
\<close>

definition example_heap :: heap where
  "example_heap =
     [Tensor \<lparr>shape = [4], elems = [1, 2, 3, 6]\<rparr>,
      Tensor \<lparr>shape = [4, 2], elems = [1, 10, 2, 20, 3, 30, 4, 40]\<rparr>,
      TDict [(''reward'', 1)],
      TDict [(''avg_violation'', 0), (''next'', 2)]]"

text \<open>
  A loss module whose estimators write a fixed advantage and, as value target, the reward
  tensor that the scratch copy exposes to them; its log-weight is zero everywhere, its
  critics predict zero and its regression loss is the squared error. The cost advantage
  is a parameter.
\<close>

definition example_loss :: "tensor \<Rightarrow> (unit, unit) PPOLagLoss" where
  "example_loss c_adv =
     \<lparr>lag = 0,
      critic_params = (), target_critic_params = (),
      safe_critic_params = (), target_safe_critic_params = (),
      normalize_advantage = False,
      entropy_bonus = True, entropy_coef = 1 / 100, critic_coef = 1,
      loss_critic_type = ''l2'',
      clip_bounds = (ln (4 / 5), ln (6 / 5)),
      advantage_key = [''r_advantage''], c_advantage_key = [''c_advantage''],
      value_target_key = [''r_value_target''], c_value_target_key = [''c_value_target''],
      value_key = [''r_value''], c_value_key = [''c_value''],
      r_value_estimator = (\<lambda>params target_params h tmp.
         bind (td_get_tensor h tmp [''next'', ''reward'']) (\<lambda>reward.
         Inr [([''r_advantage''], \<lparr>shape = [4], elems = [1, - 1, 2, - 2]\<rparr>),
              ([''r_value_target''], reward)])),
      c_value_estimator = (\<lambda>params target_params h tmp.
         bind (td_get_tensor h tmp [''next'', ''reward'']) (\<lambda>reward.
         Inr [([''c_advantage''], c_adv), ([''c_value_target''], reward)])),
      log_weight = (\<lambda>h tmp. Inr ([], \<lparr>shape = [4], elems = [0, 0, 0, 0]\<rparr>, ())),
      get_entropy_bonus = (\<lambda>dist'. Inr \<lparr>shape = [4], elems = [1, 1, 1, 1]\<rparr>),
      critic = (\<lambda>h tmp params.
         Inr [([''r_value''], \<lparr>shape = [4, 1], elems = [0, 0, 0, 0]\<rparr>)]),
      safe_critic = (\<lambda>h tmp params.
         Inr [([''c_value''], \<lparr>shape = [4, 1], elems = [0, 0, 0, 0]\<rparr>)]),
      distance_loss = (\<lambda>target pred kind. Inr (tensor_map2 (\<lambda>a b. (a - b)\<^sup>2) target pred))\<rparr>"

text \<open>
  The heaps that the call \<^verbatim>\<open>forward\<close> goes through on this batch, the scratch copy being
  object 5: after the copy of line 61; as the reward estimator is given it (line 71); as the
  cost estimator is given it (line 77); after both estimators (line 82), with the cost
  advantage \<open>c\<close>; after the reward critic (line 117); and when the call returns.
\<close>

definition example_copy :: heap where
  "example_copy = example_heap @
     [TDict [(''reward'', 1)], TDict [(''avg_violation'', 0), (''next'', 4)]]"

definition example_r_heap :: heap where
  "example_r_heap = example_heap @
     [TDict [(''reward'', 6)], TDict [(''avg_violation'', 0), (''next'', 4)],
      Tensor \<lparr>shape = [4, 1], elems = [1, 2, 3, 4]\<rparr>]"

definition example_c_heap :: heap where
  "example_c_heap = example_heap @
     [TDict [(''reward'', 9)],
      TDict [(''avg_violation'', 0), (''next'', 4), (''r_advantage'', 7),
             (''r_value_target'', 8)],
      Tensor \<lparr>shape = [4, 1], elems = [1, 2, 3, 4]\<rparr>,
      Tensor \<lparr>shape = [4], elems = [1, - 1, 2, - 2]\<rparr>,
      Tensor \<lparr>shape = [4, 1], elems = [1, 2, 3, 4]\<rparr>,
      Tensor \<lparr>shape = [4, 1], elems = [10, 20, 30, 40]\<rparr>]"

definition example_estimated :: "tensor \<Rightarrow> heap" where
  "example_estimated c = example_heap @
     [TDict [(''reward'', 9)],
      TDict [(''avg_violation'', 0), (''next'', 4), (''r_advantage'', 7),
             (''r_value_target'', 8), (''c_advantage'', 10), (''c_value_target'', 11)],
      Tensor \<lparr>shape = [4, 1], elems = [1, 2, 3, 4]\<rparr>,
      Tensor \<lparr>shape = [4], elems = [1, - 1, 2, - 2]\<rparr>,
      Tensor \<lparr>shape = [4, 1], elems = [1, 2, 3, 4]\<rparr>,
      Tensor \<lparr>shape = [4, 1], elems = [10, 20, 30, 40]\<rparr>,
      Tensor c,
      Tensor \<lparr>shape = [4, 1], elems = [10, 20, 30, 40]\<rparr>]"

definition example_r_critic :: "tensor \<Rightarrow> heap" where
  "example_r_critic c = example_heap @
     [TDict [(''reward'', 9)],
      TDict [(''avg_violation'', 0), (''next'', 4), (''r_advantage'', 7),
             (''r_value_target'', 8), (''c_advantage'', 10), (''c_value_target'', 11),
             (''r_value'', 12)],
      Tensor \<lparr>shape = [4, 1], elems = [1, 2, 3, 4]\<rparr>,
      Tensor \<lparr>shape = [4], elems = [1, - 1, 2, - 2]\<rparr>,
      Tensor \<lparr>shape = [4, 1], elems = [1, 2, 3, 4]\<rparr>,
      Tensor \<lparr>shape = [4, 1], elems = [10, 20, 30, 40]\<rparr>,
      Tensor c,
      Tensor \<lparr>shape = [4, 1], elems = [10, 20, 30, 40]\<rparr>,
      Tensor \<lparr>shape = [4, 1], elems = [0, 0, 0, 0]\<rparr>]"

definition example_final :: "tensor \<Rightarrow> heap" where
  "example_final c = example_heap @
     [TDict [(''reward'', 9)],
      TDict [(''avg_violation'', 0), (''next'', 4), (''r_advantage'', 7),
             (''r_value_target'', 8), (''c_advantage'', 10), (''c_value_target'', 11),
             (''r_value'', 12), (''c_value'', 13)],
      Tensor \<lparr>shape = [4, 1], elems = [1, 2, 3, 4]\<rparr>,
      Tensor \<lparr>shape = [4], elems = [1, - 1, 2, - 2]\<rparr>,
      Tensor \<lparr>shape = [4, 1], elems = [1, 2, 3, 4]\<rparr>,
      Tensor \<lparr>shape = [4, 1], elems = [10, 20, 30, 40]\<rparr>,
      Tensor c,
      Tensor \<lparr>shape = [4, 1], elems = [10, 20, 30, 40]\<rparr>,
      Tensor \<lparr>shape = [4, 1], elems = [0, 0, 0, 0]\<rparr>,
      Tensor \<lparr>shape = [4, 1], elems = [0, 0, 0, 0]\<rparr>]"

section \<open>Properties\<close>

subsection \<open>The positivity map\<close>

lemma softplus_pos: "0 < softplus x"
  unfolding softplus_def by (rule ln_gt_zero) simp

lemma softplus_mono: "x \<le> y \<Longrightarrow> softplus x \<le> softplus y"
  unfolding softplus_def by (simp add: add_pos_pos)

lemma softplus_inv_softplus: "0 < y \<Longrightarrow> softplus (inv_softplus y) = y"
  unfolding softplus_def inv_softplus_def by simp





lemma softplus_float32_softplus:
  "1 / 2 ^ 150 < exp x \<Longrightarrow> x \<le> 20 \<Longrightarrow> softplus_float32 x = softplus x"
  by (simp add: softplus_float32_def exp_float32_def softplus_def)






text \<open>
  Claim C5. For every initial value greater than 0, the multiplier right after
  construction is that initial value, in both modules: the raw parameter starts at the
  inverse of the positivity map.
\<close>

theorem multiplier_initial_value:
  "0 < initial_value \<Longrightarrow>
   NaiveLagrange_get (NaiveLagrange_init initial_value limit) = initial_value \<and>
   lagrangian (PPOLagLoss_init base r_est c_est initial_value k1 k2 k3 k4 k5 k6)
     = initial_value"
  by (simp add: NaiveLagrange_get_def NaiveLagrange_init_def lagrangian_def
      PPOLagLoss_init_def softplus_inv_softplus)

theorem multiplier_initial_value_witness:
  "NaiveLagrange_get (NaiveLagrange_init 1 25) = 1 \<and>
   lagrangian (PPOLagLoss_init (example_loss \<lparr>shape = [4], elems = [0, 0, 0, 0]\<rparr>)
       (\<lambda>p tp h tmp. Inr []) (\<lambda>p tp h tmp. Inr []) 1
       [''r_advantage''] [''c_advantage''] [''r_value_target''] [''c_value_target'']
       [''r_value''] [''c_value''])
     = 1"
  using multiplier_initial_value [of 1] by simp

subsection \<open>Dual ascent\<close>

lemma lagrangian_loss_deriv:
  "((\<lambda>raw. lagrangian_loss raw avg * cs) has_real_derivative
      - (exp raw / (1 + exp raw)) * avg * cs) (at raw)"
  unfolding lagrangian_loss_def softplus_def
  by (auto intro!: derivative_eq_intros simp: add_pos_pos)

text \<open>
  Claim C3. Let \<open>g\<close> be the derivative, with respect to the raw parameter, of the dual loss
  \<open>- softplus raw * avg_violation * cost_scale\<close> with a positive \<open>cost_scale\<close>. After one
  step of gradient descent with a positive learning rate the multiplier is not smaller
  than before when \<open>avg_violation > 0\<close>, and not larger when \<open>avg_violation < 0\<close>.
\<close>

theorem dual_ascent_monotone:
  assumes "0 < lr" and "0 < cs"
    and "((\<lambda>raw. lagrangian_loss raw avg * cs) has_real_derivative g)
           (at (NaiveLagrange.lag self))"
  shows "(0 < avg \<longrightarrow> NaiveLagrange_get self \<le> NaiveLagrange_get (sgd_step lr g self)) \<and>
         (avg < 0 \<longrightarrow> NaiveLagrange_get (sgd_step lr g self) \<le> NaiveLagrange_get self)"
proof -
  define s where "s = exp (NaiveLagrange.lag self) / (1 + exp (NaiveLagrange.lag self))"
  have g: "g = - s * avg * cs"
    unfolding s_def using DERIV_unique [OF assms(3) lagrangian_loss_deriv] .
  have pos: "0 < lr * s * cs"
    using assms(1,2) by (simp add: s_def add_pos_pos)
  have step: "NaiveLagrange.lag self - lr * g = NaiveLagrange.lag self + (lr * s * cs) * avg"
    unfolding g by (simp add: algebra_simps)
  show ?thesis
  proof (intro conjI impI)
    assume "0 < avg"
    then have "0 \<le> (lr * s * cs) * avg"
      using pos by (simp add: mult_nonneg_nonneg)
    then have "NaiveLagrange.lag self \<le> NaiveLagrange.lag self - lr * g"
      unfolding step by simp
    then show "NaiveLagrange_get self \<le> NaiveLagrange_get (sgd_step lr g self)"
      by (simp add: NaiveLagrange_get_def sgd_step_def softplus_mono)
  next
    assume "avg < 0"
    then have "(lr * s * cs) * avg \<le> 0"
      using pos by (simp add: mult_nonneg_nonpos)
    then have "NaiveLagrange.lag self - lr * g \<le> NaiveLagrange.lag self"
      unfolding step by simp
    then show "NaiveLagrange_get (sgd_step lr g self) \<le> NaiveLagrange_get self"
      by (simp add: NaiveLagrange_get_def sgd_step_def softplus_mono)
  qed
qed

theorem dual_ascent_monotone_witness:
  "NaiveLagrange_get \<lparr>NaiveLagrange.lag = 0, cost_limit = 25\<rparr>
     \<le> NaiveLagrange_get (sgd_step (1 / 10) (- (3 / 2)) \<lparr>NaiveLagrange.lag = 0, cost_limit = 25\<rparr>) \<and>
   NaiveLagrange_get (sgd_step (1 / 10) (3 / 2) \<lparr>NaiveLagrange.lag = 0, cost_limit = 25\<rparr>)
     \<le> NaiveLagrange_get \<lparr>NaiveLagrange.lag = 0, cost_limit = 25\<rparr>"
proof -
  have up: "((\<lambda>raw. lagrangian_loss raw 3 * 1) has_real_derivative - (3 / 2))
              (at (NaiveLagrange.lag \<lparr>NaiveLagrange.lag = 0, cost_limit = 25\<rparr>))"
    using lagrangian_loss_deriv [of 3 1 0] by simp
  have down: "((\<lambda>raw. lagrangian_loss raw (- 3) * 1) has_real_derivative 3 / 2)
                (at (NaiveLagrange.lag \<lparr>NaiveLagrange.lag = 0, cost_limit = 25\<rparr>))"
    using lagrangian_loss_deriv [of "- 3" 1 0] by simp
  show ?thesis
    using dual_ascent_monotone [of "1 / 10" 1 3 "- (3 / 2)", OF _ _ up]
      dual_ascent_monotone [of "1 / 10" 1 "- 3" "3 / 2", OF _ _ down]
    by simp
qed

subsection \<open>The gains of the actor loss\<close>

declare chunks.simps [simp del]

lemma chunks_Nil: "chunks n [] = []"
  by (simp add: chunks.simps)

lemma chunks_pairs:
  "chunks 2 (concat (map2 (\<lambda>x y. [x, y]) xs ys)) = map2 (\<lambda>x y. [x, y]) xs ys"
proof (induction xs arbitrary: ys)
  case Nil
  show ?case by (simp add: chunks_Nil)
next
  case (Cons x xs)
  show ?case
  proof (cases ys)
    case Nil
    then show ?thesis by (simp add: chunks_Nil)
  next
    case (Cons y ys')
    then show ?thesis
      using Cons.IH [of ys'] by (simp add: chunks.simps [of 2 "x # y # _"])
  qed
qed

lemma elems_min_last_stack:
  "elems (min_last (stack_last a b)) = map2 min (elems a) (elems b)"
proof -
  have "map (\<lambda>c. fold min (tl c) (hd c)) (map2 (\<lambda>x y. [x, y]) xs ys) = map2 min xs ys"
    for xs ys :: "real list"
    by (induction xs arbitrary: ys) (auto simp: min.commute split: list.splits)
  then show ?thesis
    by (simp add: min_last_def stack_last_def chunks_pairs)
qed

lemma elems_r_gain:
  "elems (r_gain bounds log_w r_advantage) =
     map2 min (elems (r_gain1 log_w r_advantage)) (elems (r_gain2 bounds log_w r_advantage))"
  by (simp add: r_gain_def elems_min_last_stack)

lemma elems_r_gain1: "elems (r_gain1 log_w r) = map2 (\<lambda>l a. exp l * a) (elems log_w) (elems r)"
  by (simp add: r_gain1_def tensor_mul_def tensor_map2_def tensor_exp_def tensor_map_def
      zip_map1 split_def)

lemma elems_r_gain2:
  "elems (r_gain2 bounds log_w r) =
     map2 (\<lambda>l a. exp (min (max l (fst bounds)) (snd bounds)) * a) (elems log_w) (elems r)"
  by (simp add: r_gain2_def tensor_mul_def tensor_map2_def tensor_exp_def tensor_map_def
      clamp_def zip_map1 split_def)

lemma elems_c_gain: "elems (c_gain log_w c) = map2 (\<lambda>l a. exp l * a) (elems log_w) (elems c)"
  by (simp add: c_gain_def tensor_mul_def tensor_map2_def tensor_exp_def tensor_map_def
      zip_map1 split_def)

text \<open>
  Claim C7, as amended. For every pair of clip bounds and every element whose log-weight
  is not below the lower clip bound, the clipped gain \<open>exp (clip l) * a\<close> is at most the
  unclipped gain \<open>exp l * a\<close> when the advantage \<open>a\<close> is at least 0, and at least the
  unclipped gain when \<open>a < 0\<close>. For every element, whatever its log-weight, the reward
  surrogate gain (the minimum of the two) is at most the unclipped gain.
\<close>

theorem clipped_gain_pessimism:
  assumes "i < numel log_w" and "i < numel r_advantage"
  shows "(fst bounds \<le> elems log_w ! i \<longrightarrow>
            (0 \<le> elems r_advantage ! i \<longrightarrow>
               elems (r_gain2 bounds log_w r_advantage) ! i
                 \<le> elems (r_gain1 log_w r_advantage) ! i) \<and>
            (elems r_advantage ! i < 0 \<longrightarrow>
               elems (r_gain1 log_w r_advantage) ! i
                 \<le> elems (r_gain2 bounds log_w r_advantage) ! i)) \<and>
         elems (r_gain bounds log_w r_advantage) ! i
           \<le> elems (r_gain1 log_w r_advantage) ! i"
proof -
  let ?l = "elems log_w ! i" and ?a = "elems r_advantage ! i"
  let ?cl = "min (max ?l (fst bounds)) (snd bounds)"
  have g1: "elems (r_gain1 log_w r_advantage) ! i = exp ?l * ?a"
    using assms by (simp add: elems_r_gain1 numel_def)
  have g2: "elems (r_gain2 bounds log_w r_advantage) ! i = exp ?cl * ?a"
    using assms by (simp add: elems_r_gain2 numel_def)
  have g: "elems (r_gain bounds log_w r_advantage) ! i = min (exp ?l * ?a) (exp ?cl * ?a)"
    using assms by (simp add: elems_r_gain elems_r_gain1 elems_r_gain2 numel_def)
  have below: "exp ?cl \<le> exp ?l" if "fst bounds \<le> ?l"
    using that by simp
  show ?thesis
    unfolding g1 g2 g
    using below by (auto intro: mult_right_mono mult_right_mono_neg)
qed

theorem clipped_gain_pessimism_witness:
  "elems (r_gain2 (ln (4 / 5), ln (6 / 5)) \<lparr>shape = [2], elems = [ln 2, ln 2]\<rparr>
            \<lparr>shape = [2], elems = [1, - 1]\<rparr>) ! 0
     \<le> elems (r_gain1 \<lparr>shape = [2], elems = [ln 2, ln 2]\<rparr> \<lparr>shape = [2], elems = [1, - 1]\<rparr>) ! 0 \<and>
   elems (r_gain1 \<lparr>shape = [2], elems = [ln 2, ln 2]\<rparr> \<lparr>shape = [2], elems = [1, - 1]\<rparr>) ! 1
     \<le> elems (r_gain2 (ln (4 / 5), ln (6 / 5)) \<lparr>shape = [2], elems = [ln 2, ln 2]\<rparr>
               \<lparr>shape = [2], elems = [1, - 1]\<rparr>) ! 1 \<and>
   elems (r_gain (ln (4 / 5), ln (6 / 5)) \<lparr>shape = [2], elems = [ln 2, ln 2]\<rparr>
            \<lparr>shape = [2], elems = [1, - 1]\<rparr>) ! 0
     \<le> elems (r_gain1 \<lparr>shape = [2], elems = [ln 2, ln 2]\<rparr> \<lparr>shape = [2], elems = [1, - 1]\<rparr>) ! 0 \<and>
   elems (r_gain1 \<lparr>shape = [2], elems = [ln 2, ln 2]\<rparr> \<lparr>shape = [2], elems = [1, - 1]\<rparr>) = [2, - 2] \<and>
   elems (r_gain2 (ln (4 / 5), ln (6 / 5)) \<lparr>shape = [2], elems = [ln 2, ln 2]\<rparr>
            \<lparr>shape = [2], elems = [1, - 1]\<rparr>) = [6 / 5, - (6 / 5)] \<and>
   elems (r_gain (ln (4 / 5), ln (6 / 5)) \<lparr>shape = [2], elems = [ln 2, ln 2]\<rparr>
            \<lparr>shape = [2], elems = [1, - 1]\<rparr>) = [6 / 5, - 2]"
proof -
  have lo: "ln (4 / 5) \<le> ln (2::real)" and hi: "ln (6 / 5) \<le> ln (2::real)"
    by simp_all
  have cl: "min (max (ln 2) (ln (4 / 5 :: real))) (ln (6 / 5)) = ln (6 / 5)"
    using lo hi by simp
  have v1: "elems (r_gain1 \<lparr>shape = [2], elems = [ln 2, ln 2]\<rparr> \<lparr>shape = [2], elems = [1, - 1]\<rparr>)
              = [2, - 2]"
    by (simp add: elems_r_gain1)
  have v2: "elems (r_gain2 (ln (4 / 5), ln (6 / 5)) \<lparr>shape = [2], elems = [ln 2, ln 2]\<rparr>
              \<lparr>shape = [2], elems = [1, - 1]\<rparr>) = [6 / 5, - (6 / 5)]"
    by (simp add: elems_r_gain2 cl)
  have v: "elems (r_gain (ln (4 / 5), ln (6 / 5)) \<lparr>shape = [2], elems = [ln 2, ln 2]\<rparr>
              \<lparr>shape = [2], elems = [1, - 1]\<rparr>) = [6 / 5, - 2]"
    by (simp add: elems_r_gain v1 v2)
  show ?thesis
    using lo v1 v2 v
      clipped_gain_pessimism [of 0 "\<lparr>shape = [2], elems = [ln 2, ln 2]\<rparr>"
        "\<lparr>shape = [2], elems = [1, - 1]\<rparr>" "(ln (4 / 5), ln (6 / 5))"]
      clipped_gain_pessimism [of 1 "\<lparr>shape = [2], elems = [ln 2, ln 2]\<rparr>"
        "\<lparr>shape = [2], elems = [1, - 1]\<rparr>" "(ln (4 / 5), ln (6 / 5))"]
    by (simp add: numel_def)
qed

theorem clipped_gain_counterexample:
  "exp (ln (4 / 5)) < (1::real) \<and> (1::real) < exp (ln (6 / 5)) \<and>
   \<not> (elems (r_gain2 (ln (4 / 5), ln (6 / 5)) \<lparr>shape = [1], elems = [ln (1 / 2)]\<rparr>
                \<lparr>shape = [1], elems = [1]\<rparr>) ! 0
        \<le> elems (r_gain1 \<lparr>shape = [1], elems = [ln (1 / 2)]\<rparr> \<lparr>shape = [1], elems = [1]\<rparr>) ! 0)"
proof -
  have "ln (1 / 2) \<le> ln (4 / 5 :: real)" "ln (4 / 5) \<le> ln (6 / 5 :: real)"
    by (simp_all del: ln_div)
  then have "min (max (ln (1 / 2)) (ln (4 / 5 :: real))) (ln (6 / 5)) = ln (4 / 5)"
    by (simp del: ln_div)
  then show ?thesis
    by (simp add: elems_r_gain1 elems_r_gain2 del: ln_div)
qed

subsection \<open>The actor loss\<close>

lemma actor_terms:
  "map2 (+) (map uminus (map2 min (map2 (\<lambda>l a. exp l * a) ls as)
                                   (map2 (\<lambda>l a. exp (min (max l lo) hi) * a) ls as)))
            (map (\<lambda>x. lam * x) (map2 (\<lambda>l a. exp l * a) ls cs)) =
   map (\<lambda>(l, a, c). - min (exp l * a) (exp (min (max l lo) hi) * a) + lam * (exp l * c))
       (zip ls (zip as cs))"
proof (induction ls arbitrary: as cs)
  case Nil
  show ?case by simp
next
  case (Cons l ls)
  show ?case
  proof (cases as)
    case Nil
    then show ?thesis by simp
  next
    case as: (Cons a as')
    show ?thesis
    proof (cases cs)
      case Nil
      then show ?thesis by (simp add: as)
    next
      case (Cons c cs')
      then show ?thesis using Cons.IH [of as' cs'] by (simp add: as)
    qed
  qed
qed

lemma elems_actor_terms:
  "elems (tensor_add (tensor_neg (r_gain bounds lw r)) (tensor_scale lam (c_gain lw c))) =
   map (\<lambda>(l, a, c). - min (exp l * a) (exp (min (max l (fst bounds)) (snd bounds)) * a)
                      + lam * (exp l * c))
       (zip (elems lw) (zip (elems r) (elems c)))"
proof -
  have "elems (tensor_add (tensor_neg (r_gain bounds lw r)) (tensor_scale lam (c_gain lw c))) =
        map2 (+) (map uminus (elems (r_gain bounds lw r)))
                 (map (\<lambda>x. lam * x) (elems (c_gain lw c)))"
    by (simp add: tensor_add_def tensor_neg_def tensor_scale_def tensor_map2_def tensor_map_def)
  then show ?thesis
    by (simp only: elems_r_gain elems_r_gain1 elems_r_gain2 elems_c_gain actor_terms)
qed

lemma loss_pi_spec:
  "shape c = shape lw \<Longrightarrow> shape r = shape lw \<Longrightarrow>
   loss_pi lam bounds lw r c = Inr (spec_actor_loss lam bounds lw r c)"
  by (simp only: loss_pi_def spec_actor_loss_def tensor_mean_def numel_def elems_actor_terms
      Let_def simp_thms if_True)


subsection \<open>Standardized advantages\<close>

lemma sum_list_shift:
  "sum_list (map (\<lambda>x. (x - m) / s) xs) = (sum_list xs - real (length xs) * m) / (s::real)"
  by (induction xs) (simp_all add: add_divide_distrib [symmetric] algebra_simps)

lemma mean_standardized:
  assumes "xs \<noteq> []"
  shows "sum_list (map (\<lambda>x. (x - sum_list xs / real (length xs)) / s) xs) = (0::real)"
  using assms by (simp add: sum_list_shift)

lemma sum_list_squares_scaled:
  "sum_list (map (\<lambda>y. y\<^sup>2) (map (\<lambda>x. (x - m) / s) xs)) =
     sum_list (map (\<lambda>x. (x - m)\<^sup>2) xs) / (s::real)\<^sup>2"
  by (induction xs) (simp_all add: power_divide add_divide_distrib)

subsection \<open>The heap: what a write into the scratch copy can change\<close>

lemma bind_eq_Inr: "bind m f = Inr y \<longleftrightarrow> (\<exists>x. m = Inr x \<and> f x = Inr y)"
  by (cases m) (simp_all add: bind_def)

lemma set_update_cases:
  "(k', c) \<in> set (AList.update k v kvs) \<Longrightarrow> (k', c) = (k, v) \<or> (k', c) \<in> set kvs"
  by (induction kvs) (auto split: if_splits)

lemma scratch_closedD:
  assumes "scratch_closed b h" and "b \<le> a" and "a < length h" and "h ! a = TDict kvs"
    and "(k, c) \<in> set kvs"
  shows "c < length h" and "h ! c = TDict kvs' \<Longrightarrow> b \<le> c"
proof -
  have "c < length h \<and> (\<forall>kvs'. h ! c = TDict kvs' \<longrightarrow> b \<le> c)"
    using assms(1) [unfolded scratch_closed_def, rule_format, OF assms(2-5)] .
  then show "c < length h" and "h ! c = TDict kvs' \<Longrightarrow> b \<le> c"
    by simp_all
qed

lemma scratch_closedI:
  assumes "\<And>a kvs k c. b \<le> a \<Longrightarrow> a < length h \<Longrightarrow> h ! a = TDict kvs \<Longrightarrow> (k, c) \<in> set kvs
             \<Longrightarrow> c < length h \<and> (\<forall>kvs'. h ! c = TDict kvs' \<longrightarrow> b \<le> c)"
  shows "scratch_closed b h"
  unfolding scratch_closed_def using assms by (intro allI impI)

lemma closed_update:
  assumes cl: "scratch_closed b h" and ba: "b \<le> a" and al: "a < length h"
    and node: "h ! a = TDict kvs"
    and vl: "v < length h" and vd: "\<And>kvs'. h ! v = TDict kvs' \<Longrightarrow> b \<le> v"
  shows "scratch_closed b (h[a := TDict (AList.update k v kvs)])"
proof (rule scratch_closedI)
  fix x kvs1 k1 c1
  let ?h = "h[a := TDict (AList.update k v kvs)]"
  assume x: "b \<le> x" "x < length ?h" and xn: "?h ! x = TDict kvs1"
    and entry: "(k1, c1) \<in> set kvs1"
  have xl: "x < length h" using x(2) by simp
  have old: "c1 < length h \<and> (\<forall>kvs'. h ! c1 = TDict kvs' \<longrightarrow> b \<le> c1)"
  proof (cases "x = a")
    case True
    then have "kvs1 = AList.update k v kvs" using xn al by simp
    then have "(k1, c1) = (k, v) \<or> (k1, c1) \<in> set kvs"
      using entry set_update_cases [of k1 c1 k v kvs] by simp
    then show ?thesis
    proof
      assume "(k1, c1) = (k, v)"
      then show ?thesis using vl vd by simp
    next
      assume "(k1, c1) \<in> set kvs"
      then show ?thesis
        using scratch_closedD [OF cl ba al node] by blast
    qed
  next
    case False
    then have "h ! x = TDict kvs1" using xn by simp
    then show ?thesis
      using scratch_closedD [OF cl x(1) xl _ entry] by blast
  qed
  show "c1 < length ?h \<and> (\<forall>kvs'. ?h ! c1 = TDict kvs' \<longrightarrow> b \<le> c1)"
  proof (cases "c1 = a")
    case True
    then show ?thesis using ba al by simp
  next
    case False
    then show ?thesis using old by simp
  qed
qed

lemma closed_append:
  assumes cl: "scratch_closed b h" and x: "\<And>kvs. x = TDict kvs \<Longrightarrow> kvs = []"
  shows "scratch_closed b (h @ [x])"
proof (rule scratch_closedI)
  fix a kvs k c
  assume a: "b \<le> a" "a < length (h @ [x])" and node: "(h @ [x]) ! a = TDict kvs"
    and entry: "(k, c) \<in> set kvs"
  have al: "a < length h"
  proof (rule ccontr)
    assume "\<not> a < length h"
    then have "a = length h" using a(2) by simp
    then have "x = TDict kvs" using node by simp
    then have "kvs = []" by (rule x)
    then show False using entry by simp
  qed
  then have hn: "h ! a = TDict kvs" using node by (simp add: nth_append)
  have c: "c < length h" by (rule scratch_closedD(1) [OF cl a(1) al hn entry])
  have d: "b \<le> c" if "h ! c = TDict kvs'" for kvs'
    by (rule scratch_closedD(2) [OF cl a(1) al hn entry that])
  show "c < length (h @ [x]) \<and> (\<forall>kvs'. (h @ [x]) ! c = TDict kvs' \<longrightarrow> b \<le> c)"
    using c d by (simp add: nth_append)
qed

lemma closed_append_obj:
  assumes cl: "scratch_closed b h"
    and x: "\<And>kvs k c. x = TDict kvs \<Longrightarrow> (k, c) \<in> set kvs
              \<Longrightarrow> c < length h \<and> (\<forall>kvs'. h ! c = TDict kvs' \<longrightarrow> b \<le> c)"
  shows "scratch_closed b (h @ [x])"
proof (rule scratch_closedI)
  fix a kvs k c
  assume a: "b \<le> a" "a < length (h @ [x])" and node: "(h @ [x]) ! a = TDict kvs"
    and entry: "(k, c) \<in> set kvs"
  have c: "c < length h \<and> (\<forall>kvs'. h ! c = TDict kvs' \<longrightarrow> b \<le> c)"
  proof (cases "a < length h")
    case True
    then have hn: "h ! a = TDict kvs" using node by (simp add: nth_append)
    show ?thesis
      using scratch_closedD [OF cl a(1) True hn entry] by blast
  next
    case False
    then have "a = length h" using a(2) by simp
    then have "x = TDict kvs" using node by simp
    then show ?thesis using entry by (rule x)
  qed
  then show "c < length (h @ [x]) \<and> (\<forall>kvs'. (h @ [x]) ! c = TDict kvs' \<longrightarrow> b \<le> c)"
    by (simp add: nth_append)
qed

lemma take_prefix_length:
  assumes "take (length h) h' = h"
  shows "length h \<le> length h'"
proof -
  have "length (take (length h) h') = length h" using assms by simp
  then show ?thesis by simp
qed

lemma td_set_dict:
  assumes "td_set h a (k # ks) v = Inr h'"
  shows "\<exists>kvs. a < length h \<and> h ! a = TDict kvs"
proof (cases "lookup h a")
  case None
  then show ?thesis using assms by (cases ks) simp_all
next
  case (Some x)
  then have al: "a < length h" "h ! a = x"
    by (simp_all add: lookup_def split: if_splits)
  show ?thesis
  proof (cases x)
    case (Tensor t)
    then show ?thesis using assms Some by (cases ks) simp_all
  next
    case (TDict kvs)
    then show ?thesis using al by simp
  qed
qed

lemma td_set_inv:
  assumes "td_set h a ks v = Inr h'" and "b \<le> a" and "scratch_closed b h" and "v < length h"
    and "\<And>kvs'. h ! v = TDict kvs' \<Longrightarrow> b \<le> v"
  shows "take b h' = take b h \<and> length h \<le> length h' \<and> scratch_closed b h'"
  using assms
proof (induction h a ks v arbitrary: h' rule: td_set.induct)
  case (1 h a v)
  then show ?case by simp
next
  case (2 h a k v)
  obtain kvs where a: "a < length h" "h ! a = TDict kvs"
    using td_set_dict [OF "2.prems"(1)] by blast
  then have look: "lookup h a = Some (TDict kvs)" by (simp add: lookup_def)
  have h': "h' = h[a := TDict (AList.update k v kvs)]"
    using "2.prems"(1) look by simp
  have "scratch_closed b h'"
    unfolding h' by (rule closed_update [OF "2.prems"(3,2) a "2.prems"(4,5)])
  then show ?case
    using "2.prems"(2) by (simp add: h')
next
  case (3 h a k k' ks v)
  obtain kvs where a: "a < length h" "h ! a = TDict kvs"
    using td_set_dict [OF "3.prems"(1)] by blast
  then have look: "lookup h a = Some (TDict kvs)" by (simp add: lookup_def)
  show ?case
  proof (cases "map_of kvs k")
    case (Some c)
    then have rec: "td_set h c (k' # ks) v = Inr h'"
      using "3.prems"(1) look by simp
    obtain kvc where c: "c < length h" "h ! c = TDict kvc"
      using td_set_dict [OF rec] by blast
    have "(k, c) \<in> set kvs" using Some by (rule map_of_SomeD)
    then have bc: "b \<le> c"
      by (rule scratch_closedD(2) [OF "3.prems"(3,2) a _ c(2)])
    show ?thesis
      by (rule "3.IH"(2) [OF look refl Some rec bc "3.prems"(3,4,5)])
  next
    case None
    let ?h0 = "h @ [TDict []]"
    let ?h1 = "?h0[a := TDict (AList.update k (length h) kvs)]"
    have rec: "td_set ?h1 (length h) (k' # ks) v = Inr h'"
      using "3.prems"(1) look None by simp
    have ba: "b \<le> length h" using "3.prems"(2) a(1) by simp
    have c0: "scratch_closed b ?h0"
      by (rule closed_append [OF "3.prems"(3)]) simp
    have a0: "a < length ?h0" "?h0 ! a = TDict kvs"
      using a by (simp_all add: nth_append)
    have c1: "scratch_closed b ?h1"
      by (rule closed_update [OF c0 "3.prems"(2) a0]) (use ba in simp_all)
    have v1: "v < length ?h1" using "3.prems"(4) by simp
    have v2: "b \<le> v" if "?h1 ! v = TDict kvs'" for kvs'
    proof (cases "v = a")
      case True
      then show ?thesis using "3.prems"(2) by simp
    next
      case False
      then have "h ! v = TDict kvs'"
        using that "3.prems"(4) by (simp add: nth_append)
      then show ?thesis by (rule "3.prems"(5))
    qed
    have "take b h' = take b ?h1 \<and> length ?h1 \<le> length h' \<and> scratch_closed b h'"
      by (rule "3.IH"(1) [OF look refl None rec ba c1 v1 v2])
    moreover have "take b ?h1 = take b h"
      using "3.prems"(2) ba by simp
    ultimately show ?thesis by simp
  qed
qed

lemma td_set_tensor_inv:
  assumes "td_set_tensor h a ks t = Inr h'" and "b \<le> a" and "scratch_closed b h"
    and "b \<le> length h"
  shows "take b h' = take b h \<and> length h \<le> length h' \<and> scratch_closed b h'"
proof -
  have c0: "scratch_closed b (h @ [Tensor t])"
    by (rule closed_append [OF assms(3)]) simp
  have "take b h' = take b (h @ [Tensor t]) \<and> length (h @ [Tensor t]) \<le> length h' \<and>
        scratch_closed b h'"
    by (rule td_set_inv [OF assms(1) [unfolded td_set_tensor_def] assms(2) c0]) simp_all
  then show ?thesis using assms(4) by simp
qed

lemma td_write_inv:
  "td_write h a ws = Inr h' \<Longrightarrow> b \<le> a \<Longrightarrow> scratch_closed b h \<Longrightarrow> b \<le> length h \<Longrightarrow>
   take b h' = take b h \<and> length h \<le> length h' \<and> scratch_closed b h'"
proof (induction ws arbitrary: h)
  case Nil
  then show ?case by simp
next
  case (Cons w ws)
  obtain ks t where w: "w = (ks, t)" by (cases w)
  from Cons.prems(1) obtain h1 where h1: "td_set_tensor h a ks t = Inr h1"
    and rest: "td_write h1 a ws = Inr h'"
    by (auto simp: w bind_eq_Inr)
  have s1: "take b h1 = take b h \<and> length h \<le> length h1 \<and> scratch_closed b h1"
    by (rule td_set_tensor_inv [OF h1 Cons.prems(2,3,4)])
  then have "take b h' = take b h1 \<and> length h1 \<le> length h' \<and> scratch_closed b h'"
    using Cons.IH [OF rest Cons.prems(2)] Cons.prems(4) by simp
  then show ?case using s1 by simp
qed

lemma clone_inv:
  "clone_False n h a = Inr (h', a') \<Longrightarrow> scratch_closed b h \<Longrightarrow> b \<le> length h \<Longrightarrow>
     take (length h) h' = h \<and> scratch_closed b h' \<and> a' < length h' \<and>
     (\<forall>kvs. h' ! a' = TDict kvs \<longrightarrow> b \<le> a')"
  and "clone_items n h kvs = Inr (h', kvs') \<Longrightarrow> scratch_closed b h \<Longrightarrow> b \<le> length h \<Longrightarrow>
     take (length h) h' = h \<and> scratch_closed b h' \<and>
     (\<forall>k c. (k, c) \<in> set kvs' \<longrightarrow> c < length h' \<and> (\<forall>kvs''. h' ! c = TDict kvs'' \<longrightarrow> b \<le> c))"
proof (induction n h a and n h kvs arbitrary: h' a' and h' kvs'
    rule: clone_False_clone_items.induct)
  case (1 h a)
  then show ?case by simp
next
  case (2 n h a)
  show ?case
  proof (cases "lookup h a")
    case None
    then show ?thesis using "2.prems"(1) by simp
  next
    case (Some x)
    then have al: "a < length h" "h ! a = x"
      by (simp_all add: lookup_def split: if_splits)
    show ?thesis
    proof (cases x)
      case (Tensor t)
      then have "h' = h" "a' = a" using "2.prems"(1) Some by simp_all
      then show ?thesis using al Tensor "2.prems"(2) by simp
    next
      case (TDict kvs)
      from "2.prems"(1) Some TDict obtain h1 kvs1
        where items: "clone_items n h kvs = Inr (h1, kvs1)"
          and res: "h' = h1 @ [TDict kvs1]" "a' = length h1"
        by (auto simp: bind_eq_Inr)
      have ih: "take (length h) h1 = h \<and> scratch_closed b h1 \<and>
          (\<forall>k c. (k, c) \<in> set kvs1 \<longrightarrow>
             c < length h1 \<and> (\<forall>kvs''. h1 ! c = TDict kvs'' \<longrightarrow> b \<le> c))"
        by (rule "2.IH" [OF Some TDict items "2.prems"(2,3)])
      then have len: "length h \<le> length h1"
        using take_prefix_length [of h h1] by simp
      have "scratch_closed b h'"
        unfolding res using ih by (intro closed_append_obj) auto
      moreover have "take (length h) h' = h"
        using ih len by (simp add: res)
      moreover have "b \<le> a'" using len "2.prems"(3) by (simp add: res)
      ultimately show ?thesis by (simp add: res)
    qed
  qed
next
  case (3 n h)
  then show ?case by simp
next
  case (4 n h k c kvs)
  from "4.prems"(1) obtain h1 c1 h2 kvs2
    where first: "clone_False n h c = Inr (h1, c1)"
      and rest: "clone_items n h1 kvs = Inr (h2, kvs2)"
      and res: "h' = h2" "kvs' = (k, c1) # kvs2"
    by (auto simp: bind_eq_Inr)
  have ih1: "take (length h) h1 = h \<and> scratch_closed b h1 \<and> c1 < length h1 \<and>
      (\<forall>kvs. h1 ! c1 = TDict kvs \<longrightarrow> b \<le> c1)"
    by (rule "4.IH"(1) [OF first "4.prems"(2,3)])
  then have len1: "length h \<le> length h1"
    using take_prefix_length [of h h1] by simp
  then have b1: "b \<le> length h1" using "4.prems"(3) by simp
  have ih2: "take (length h1) h2 = h1 \<and> scratch_closed b h2 \<and>
      (\<forall>k c. (k, c) \<in> set kvs2 \<longrightarrow>
         c < length h2 \<and> (\<forall>kvs''. h2 ! c = TDict kvs'' \<longrightarrow> b \<le> c))"
    using ih1 by (intro "4.IH"(2) [OF rest _ b1]) simp
  then have len2: "length h1 \<le> length h2"
    using take_prefix_length [of h1 h2] by simp
  have "take (length h) (take (length h1) h2) = take (length h) h1"
    using ih2 by simp
  then have pre: "take (length h) h2 = h"
    using ih1 len1 by (simp add: min_def)
  have "h2 ! c1 = h1 ! c1"
    using ih1 ih2 by (metis nth_take)
  then have c1: "c1 < length h2 \<and> (\<forall>kvs''. h2 ! c1 = TDict kvs'' \<longrightarrow> b \<le> c1)"
    using ih1 len2 by simp
  show ?case
    unfolding res using pre ih2 c1 by auto
qed

lemma scratch_copy_inv:
  assumes "scratch_copy h tdict = Inr (h1, tmp)"
  shows "take (length h) h1 = h \<and> scratch_closed (length h) h1 \<and> length h \<le> tmp \<and>
         length h \<le> length h1"
proof -
  from assms obtain kvs where look: "lookup h tdict = Some (TDict kvs)"
    and cl: "clone_False (Suc (length h)) h tdict = Inr (h1, tmp)"
    by (auto simp: scratch_copy_def split: option.splits obj.splits)
  have c0: "scratch_closed (length h) h"
    by (rule scratch_closedI) simp
  have inv: "take (length h) h1 = h \<and> scratch_closed (length h) h1 \<and> tmp < length h1 \<and>
      (\<forall>kvs. h1 ! tmp = TDict kvs \<longrightarrow> length h \<le> tmp)"
    by (rule clone_inv(1) [OF cl c0]) simp
  from cl look obtain h0 kvs0 where "h1 = h0 @ [TDict kvs0]" "tmp = length h0"
    by (auto simp: bind_eq_Inr)
  then have "h1 ! tmp = TDict kvs0" by simp
  then have "length h \<le> tmp" using inv by blast
  moreover have "length h \<le> length h1"
    using inv take_prefix_length [of h h1] by simp
  ultimately show ?thesis using inv by simp
qed

lemma scratch_inv_length: "scratch_inv h0 h \<Longrightarrow> length h0 \<le> length h"
  unfolding scratch_inv_def using take_prefix_length [of h0 h] by simp

lemma scratch_inv_step:
  assumes "scratch_inv h0 h"
    and "take (length h0) h' = take (length h0) h \<and> length h \<le> length h' \<and>
         scratch_closed (length h0) h'"
  shows "scratch_inv h0 h'"
  using assms unfolding scratch_inv_def by simp

lemma td_set_tensor_scratch:
  assumes "td_set_tensor h a ks t = Inr h'" and "length h0 \<le> a" and "scratch_inv h0 h"
  shows "scratch_inv h0 h'"
proof (rule scratch_inv_step [OF assms(3)])
  show "take (length h0) h' = take (length h0) h \<and> length h \<le> length h' \<and>
        scratch_closed (length h0) h'"
    by (rule td_set_tensor_inv [OF assms(1,2)])
       (use assms(3) scratch_inv_length [OF assms(3)] in \<open>simp_all add: scratch_inv_def\<close>)
qed

lemma td_write_scratch:
  assumes "td_write h a ws = Inr h'" and "length h0 \<le> a" and "scratch_inv h0 h"
  shows "scratch_inv h0 h'"
proof (rule scratch_inv_step [OF assms(3)])
  show "take (length h0) h' = take (length h0) h \<and> length h \<le> length h' \<and>
        scratch_closed (length h0) h'"
    by (rule td_write_inv [OF assms(1,2)])
       (use assms(3) scratch_inv_length [OF assms(3)] in \<open>simp_all add: scratch_inv_def\<close>)
qed

lemma scratch_copy_scratch:
  assumes "scratch_copy h tdict = Inr (h1, tmp)"
  shows "scratch_inv h h1" and "length h \<le> tmp"
  using scratch_copy_inv [OF assms] by (simp_all add: scratch_inv_def)

lemma estimator_input_scratch:
  assumes "estimator_input h tdict tmp lo hi = Inr h'" and "length h0 \<le> tmp"
    and "scratch_inv h0 h"
  shows "scratch_inv h0 h'"
proof -
  from assms(1) obtain channel where "td_set_tensor h tmp [''next'', ''reward''] channel = Inr h'"
    by (auto simp: estimator_input_def bind_eq_Inr)
  then show ?thesis by (rule td_set_tensor_scratch [OF _ assms(2,3)])
qed

lemma c_estimator_heap_scratch:
  assumes "c_estimator_heap self h tdict tmp = Inr h'" and "length h0 \<le> tmp"
    and "scratch_inv h0 h"
  shows "scratch_inv h0 h'"
proof -
  from assms(1) obtain h2 ws h3
    where s1: "r_estimator_heap h tdict tmp = Inr h2"
      and s2: "td_write h2 tmp ws = Inr h3"
      and s3: "estimator_input h3 tdict tmp 1 None = Inr h'"
    by (auto simp: c_estimator_heap_def bind_eq_Inr)
  have "scratch_inv h0 h2"
    using s1 unfolding r_estimator_heap_def by (rule estimator_input_scratch [OF _ assms(2,3)])
  then have "scratch_inv h0 h3"
    by (rule td_write_scratch [OF s2 assms(2)])
  then show ?thesis
    by (rule estimator_input_scratch [OF s3 assms(2)])
qed

lemma value_estimates_scratch:
  assumes "value_estimates self h tdict tmp = Inr h'" and "length h0 \<le> tmp"
    and "scratch_inv h0 h"
  shows "scratch_inv h0 h'"
proof -
  from assms(1) obtain h4 ws
    where s1: "c_estimator_heap self h tdict tmp = Inr h4"
      and s2: "td_write h4 tmp ws = Inr h'"
    by (auto simp: value_estimates_def bind_eq_Inr)
  have "scratch_inv h0 h4"
    by (rule c_estimator_heap_scratch [OF s1 assms(2,3)])
  then show ?thesis
    by (rule td_write_scratch [OF s2 assms(2)])
qed

lemma critic_loss_scratch:
  assumes "critic_loss self h tmp target_key network params pred_key = Inr (h', l)"
    and "length h0 \<le> tmp" and "scratch_inv h0 h"
  shows "scratch_inv h0 h'"
proof -
  from assms(1) obtain ws where "td_write h tmp ws = Inr h'"
    by (auto simp: critic_loss_def bind_eq_Inr)
  then show ?thesis by (rule td_write_scratch [OF _ assms(2,3)])
qed

lemma actor_inputs_scratch:
  assumes "actor_inputs self h tdict train = Inr (h6, tmp, td_out, lw, d, r, c)"
  shows "scratch_inv h h6" and "length h \<le> tmp"
proof -
  from assms obtain h1 h5 ws
    where s1: "scratch_copy h tdict = Inr (h1, tmp)"
      and s2: "value_estimates self h1 tdict tmp = Inr h5"
      and s3: "td_write h5 tmp ws = Inr h6"
    by (auto simp: actor_inputs_def bind_eq_Inr split: prod.splits)
  show tmp: "length h \<le> tmp" by (rule scratch_copy_scratch(2) [OF s1])
  have "scratch_inv h h1" by (rule scratch_copy_scratch(1) [OF s1])
  then have "scratch_inv h h5" by (rule value_estimates_scratch [OF s2 tmp])
  then show "scratch_inv h h6" by (rule td_write_scratch [OF s3 tmp])
qed

lemma forward_scratch:
  assumes "forward self h tdict train = Inr (h', td_out)"
  shows "scratch_inv h h'"
proof -
  from assms obtain h6 tmp out1 lw d r c h7 l7 l8
    where s1: "actor_inputs self h tdict train = Inr (h6, tmp, out1, lw, d, r, c)"
      and s2: "critic_loss self h6 tmp (value_target_key self) (critic self)
                 (critic_params self) (value_key self) = Inr (h7, l7)"
      and s3: "critic_loss self h7 tmp (c_value_target_key self) (safe_critic self)
                 (safe_critic_params self) (c_value_key self) = Inr (h', l8)"
    by (auto simp: forward_def bind_eq_Inr split: prod.splits)
  have tmp: "length h \<le> tmp" by (rule actor_inputs_scratch(2) [OF s1])
  have "scratch_inv h h6" by (rule actor_inputs_scratch(1) [OF s1])
  then have "scratch_inv h h7" by (rule critic_loss_scratch [OF s2 tmp])
  then show ?thesis by (rule critic_loss_scratch [OF s3 tmp])
qed

lemma lookup_prefix:
  assumes "take (length h) h' = h" and "a < length h"
  shows "lookup h' a = lookup h a"
proof -
  have "length h \<le> length h'" by (rule take_prefix_length [OF assms(1)])
  moreover have "h' ! a = h ! a"
    using assms by (metis nth_take)
  ultimately show ?thesis using assms(2) by (simp add: lookup_def)
qed

lemma td_get_prefix:
  "td_get h a ks = Inr c \<Longrightarrow> take (length h) h' = h \<Longrightarrow> td_get h' a ks = Inr c"
proof (induction h a ks arbitrary: c rule: td_get.induct)
  case (1 h a)
  then show ?case by simp
next
  case (2 h a k)
  from "2.prems"(1) have "a < length h"
    by (auto simp: lookup_def split: if_splits)
  then have "lookup h' a = lookup h a"
    by (rule lookup_prefix [OF "2.prems"(2)])
  then show ?case using "2.prems"(1) by simp
next
  case (3 h a k k' ks)
  from "3.prems"(1) have al: "a < length h"
    by (auto simp: lookup_def split: if_splits)
  have look: "lookup h' a = lookup h a"
    by (rule lookup_prefix [OF "3.prems"(2) al])
  from "3.prems"(1) obtain kvs d where l: "lookup h a = Some (TDict kvs)"
    and m: "map_of kvs k = Some d" and rec: "td_get h d (k' # ks) = Inr c"
    by (auto split: option.splits obj.splits)
  have "td_get h' d (k' # ks) = Inr c"
    by (rule "3.IH" [OF l refl m rec "3.prems"(2)])
  then show ?case using look l m by simp
qed

lemma td_get_tensor_eq_Inr:
  "td_get_tensor h a ks = Inr t \<longleftrightarrow> (\<exists>c. td_get h a ks = Inr c \<and> lookup h c = Some (Tensor t))"
proof -
  have "(case lookup h c of Some (Tensor t') \<Rightarrow> Inr t' | _ \<Rightarrow> Inl TypeError) = Inr t
          \<longleftrightarrow> lookup h c = Some (Tensor t)" for c
    by (cases "lookup h c"; simp; cases "the (lookup h c)"; simp)
  then show ?thesis
    by (simp add: td_get_tensor_def bind_eq_Inr)
qed

lemma td_get_tensor_prefix:
  assumes "td_get_tensor h a ks = Inr t" and "take (length h) h' = h"
  shows "td_get_tensor h' a ks = Inr t"
proof -
  from assms(1) obtain c where g: "td_get h a ks = Inr c"
    and l: "lookup h c = Some (Tensor t)"
    unfolding td_get_tensor_eq_Inr by blast
  have "c < length h" using l by (auto simp: lookup_def split: if_splits)
  then have "lookup h' c = lookup h c" by (rule lookup_prefix [OF assms(2)])
  then show ?thesis
    unfolding td_get_tensor_eq_Inr using td_get_prefix [OF g assms(2)] l by auto
qed

subsection \<open>Reading back what was written\<close>

lemma td_set_keeps_tensor:
  "td_set h a ks v = Inr h' \<Longrightarrow> x < length h \<Longrightarrow> h ! x = Tensor t \<Longrightarrow>
   x < length h' \<and> h' ! x = Tensor t"
proof (induction h a ks v arbitrary: h' rule: td_set.induct)
  case (1 h a v)
  then show ?case by simp
next
  case (2 h a k v)
  obtain kvs where a: "a < length h" "h ! a = TDict kvs"
    using td_set_dict [OF "2.prems"(1)] by blast
  then have look: "lookup h a = Some (TDict kvs)" by (simp add: lookup_def)
  have "x \<noteq> a" using a "2.prems"(3) by auto
  then show ?case using "2.prems" look by auto
next
  case (3 h a k k' ks v)
  obtain kvs where a: "a < length h" "h ! a = TDict kvs"
    using td_set_dict [OF "3.prems"(1)] by blast
  then have look: "lookup h a = Some (TDict kvs)" by (simp add: lookup_def)
  have xa: "x \<noteq> a" using a "3.prems"(3) by auto
  show ?case
  proof (cases "map_of kvs k")
    case (Some c)
    then have rec: "td_set h c (k' # ks) v = Inr h'"
      using "3.prems"(1) look by simp
    show ?thesis by (rule "3.IH"(2) [OF look refl Some rec "3.prems"(2,3)])
  next
    case None
    let ?h1 = "(h @ [TDict []])[a := TDict (AList.update k (length h) kvs)]"
    have rec: "td_set ?h1 (length h) (k' # ks) v = Inr h'"
      using "3.prems"(1) look None by simp
    have x1: "x < length ?h1" using "3.prems"(2) by simp
    have x2: "?h1 ! x = Tensor t" using "3.prems"(2,3) xa by (simp add: nth_append)
    show ?thesis by (rule "3.IH"(1) [OF look refl None rec x1 x2])
  qed
qed

lemma td_set_get2:
  assumes "td_set h a [k1, k2] v = Inr h'" and "k1 \<noteq> k2"
  shows "td_get h' a [k1, k2] = Inr v"
proof -
  obtain kvs where a: "a < length h" "h ! a = TDict kvs"
    using td_set_dict [OF assms(1)] by blast
  then have look: "lookup h a = Some (TDict kvs)" by (simp add: lookup_def)
  show ?thesis
  proof (cases "map_of kvs k1")
    case (Some c)
    then have rec: "td_set h c [k2] v = Inr h'"
      using assms(1) look by simp
    obtain kvc where c: "c < length h" "h ! c = TDict kvc"
      using td_set_dict [OF rec] by blast
    then have h': "h' = h[c := TDict (AList.update k2 v kvc)]"
      using rec by (simp add: lookup_def)
    show ?thesis
    proof (cases "a = c")
      case True
      then show ?thesis
        using a c Some assms(2) by (simp add: h' lookup_def update_conv')
    next
      case False
      then show ?thesis
        using a c Some by (simp add: h' lookup_def update_conv')
    qed
  next
    case None
    then have "h' = (h @ [TDict []])[a := TDict (AList.update k1 (length h) kvs),
                                      length h := TDict (AList.update k2 v [])]"
      using assms(1) look a by (simp add: lookup_def nth_append)
    then show ?thesis
      using a by (simp add: lookup_def update_conv' nth_list_update)
  qed
qed

lemma td_set_tensor_get2:
  assumes "td_set_tensor h a [k1, k2] t = Inr h'" and "k1 \<noteq> k2"
  shows "td_get_tensor h' a [k1, k2] = Inr t"
proof -
  have s: "td_set (h @ [Tensor t]) a [k1, k2] (length h) = Inr h'"
    using assms(1) by (simp add: td_set_tensor_def)
  have g: "td_get h' a [k1, k2] = Inr (length h)"
    by (rule td_set_get2 [OF s assms(2)])
  have "length h < length h' \<and> h' ! length h = Tensor t"
    by (rule td_set_keeps_tensor [OF s]) simp_all
  then have "lookup h' (length h) = Some (Tensor t)" by (simp add: lookup_def)
  then show ?thesis
    unfolding td_get_tensor_eq_Inr using g by blast
qed

lemma estimator_input_reads:
  assumes "estimator_input h1 tdict tmp lo hi = Inr h2"
    and "td_get_tensor h1 tdict [''next'', ''reward''] = Inr reward"
  shows "\<exists>channel. index_cols reward lo hi = Inr channel \<and>
           td_set_tensor h1 tmp [''next'', ''reward''] channel = Inr h2 \<and>
           td_get_tensor h2 tmp [''next'', ''reward''] = Inr channel"
proof -
  from assms obtain channel where ch: "index_cols reward lo hi = Inr channel"
    and set: "td_set_tensor h1 tmp [''next'', ''reward''] channel = Inr h2"
    by (auto simp: estimator_input_def bind_eq_Inr)
  have "td_get_tensor h2 tmp [''next'', ''reward''] = Inr channel"
    by (rule td_set_tensor_get2 [OF set]) simp
  then show ?thesis using ch set by blast
qed

lemma concat_singletons:
  "(\<And>x. x \<in> set xs \<Longrightarrow> f x = [g x]) \<Longrightarrow> concat (map f xs) = map g xs"
  by (induction xs) simp_all

lemma index_cols_channel:
  assumes "shape t = [n, 2]" and "length (elems t) = 2 * n"
  shows "index_cols t 0 (Some 1) = Inr \<lparr>shape = [n, 1], elems = map (\<lambda>i. elems t ! (2 * i)) [0..<n]\<rparr>"
    and "index_cols t 1 None = Inr \<lparr>shape = [n, 1], elems = map (\<lambda>i. elems t ! (2 * i + 1)) [0..<n]\<rparr>"
proof -
  have one: "take (Suc 0) (drop k xs) = [xs ! k]" if "k < length xs" for k and xs :: "real list"
    using that by (simp add: take_Suc_conv_app_nth)
  have c0: "concat (map (\<lambda>i. take (Suc 0) (drop (i * 2) (elems t))) [0..<n])
              = map (\<lambda>i. elems t ! (2 * i)) [0..<n]"
    using assms(2) by (intro concat_singletons) (simp add: one mult.commute)
  have c1: "concat (map (\<lambda>i. take (Suc 0) (drop (Suc (i * 2)) (elems t))) [0..<n])
              = map (\<lambda>i. elems t ! (2 * i + 1)) [0..<n]"
    using assms(2) by (intro concat_singletons) (simp add: one mult.commute)
  show "index_cols t 0 (Some 1) = Inr \<lparr>shape = [n, 1], elems = map (\<lambda>i. elems t ! (2 * i)) [0..<n]\<rparr>"
    using assms(1) c0 by (simp add: index_cols_def)
  show "index_cols t 1 None = Inr \<lparr>shape = [n, 1], elems = map (\<lambda>i. elems t ! (2 * i + 1)) [0..<n]\<rparr>"
    using assms(1) c1 by (simp add: index_cols_def)
qed

subsection \<open>The output mapping\<close>

lemma actor_inputs_out:
  assumes "actor_inputs self h tdict train = Inr (h6, tmp, out1, lw, d, r, c)"
  shows "\<exists>h1. scratch_copy h tdict = Inr (h1, tmp) \<and> dual_loss self h1 tdict train = Inr out1"
  using assms by (auto simp: actor_inputs_def bind_eq_Inr split: prod.splits)

lemma forward_out:
  assumes "forward self h tdict train = Inr (h', td_out)"
  shows "\<exists>h6 tmp out1 lw d r c lp.
           actor_inputs self h tdict train = Inr (h6, tmp, out1, lw, d, r, c) \<and>
           loss_pi (lagrangian self) (clip_bounds self) lw r c = Inr lp \<and>
           td_out ''loss_pi'' = Some lp \<and>
           td_out ''loss_lagrangian'' = out1 ''loss_lagrangian''"
  using assms by (auto simp: forward_def bind_eq_Inr split: prod.splits if_splits)

lemma forward_loss_lagrangian:
  assumes "forward self h tdict train = Inr (h', td_out)"
  shows "\<exists>h1 tmp out1. scratch_copy h tdict = Inr (h1, tmp) \<and>
           dual_loss self h1 tdict train = Inr out1 \<and>
           td_out ''loss_lagrangian'' = out1 ''loss_lagrangian''"
proof -
  from forward_out [OF assms] obtain h6 tmp out1 lw d r c
    where ai: "actor_inputs self h tdict train = Inr (h6, tmp, out1, lw, d, r, c)"
      and out: "td_out ''loss_lagrangian'' = out1 ''loss_lagrangian''"
    by blast
  show ?thesis using actor_inputs_out [OF ai] out by blast
qed

subsection \<open>The call on the example batch\<close>

lemma ex_fields:
  "lagrangian (example_loss c) = ln 2"
  "clip_bounds (example_loss c) = (ln (4 / 5), ln (6 / 5))"
  "get_entropy_bonus (example_loss c) d = Inr \<lparr>shape = [4], elems = [1, 1, 1, 1]\<rparr>"
  "value_target_key (example_loss c) = [''r_value_target'']"
  "c_value_target_key (example_loss c) = [''c_value_target'']"
  "value_key (example_loss c) = [''r_value'']"
  "c_value_key (example_loss c) = [''c_value'']"
  "critic_params (example_loss c) = ()"
  "safe_critic_params (example_loss c) = ()"
  "entropy_bonus (example_loss c) = True"
  "entropy_coef (example_loss c) = 1 / 100"
  by (simp_all add: example_loss_def lagrangian_def softplus_def)

lemma ex_lag: "lag (example_loss c) = 0"
  by (simp add: example_loss_def)

lemma ex_copy: "scratch_copy example_heap 3 = Inr (example_copy, 5)"
  by (simp add: scratch_copy_def example_heap_def lookup_def bind_def example_copy_def)

lemma ex_dual:
  "dual_loss (example_loss c) example_copy 3 True =
     Inr [''loss_lagrangian'' \<mapsto> - (3 * ln 2), ''lagrangian'' \<mapsto> ln 2]"
  by (simp add: dual_loss_def td_get_tensor_def example_copy_def example_heap_def lookup_def bind_def
      example_loss_def lagrangian_loss_def lagrangian_def softplus_def tensor_mean_def numel_def)

lemma ex_dual_off:
  "dual_loss (example_loss c) example_copy 3 False = Inr [''lagrangian'' \<mapsto> ln 2]"
  by (simp add: dual_loss_def ex_fields)

lemma ex_r_heap: "r_estimator_heap example_copy 3 5 = Inr example_r_heap"
  by (simp add: r_estimator_heap_def estimator_input_def td_get_tensor_def td_set_tensor_def
      example_copy_def example_r_heap_def example_heap_def lookup_def bind_def index_cols_def upt_rec)

lemma ex_c_heap: "c_estimator_heap (example_loss c) example_copy 3 5 = Inr example_c_heap"
  unfolding c_estimator_heap_def ex_r_heap
  by (simp add: estimator_input_def td_get_tensor_def td_set_tensor_def
      example_r_heap_def example_c_heap_def example_heap_def lookup_def bind_def index_cols_def upt_rec
      example_loss_def)

lemma ex_estimates: "value_estimates (example_loss c) example_copy 3 5 = Inr (example_estimated c)"
  unfolding value_estimates_def ex_c_heap
  by (simp add: td_get_tensor_def td_set_tensor_def
      example_c_heap_def example_estimated_def example_heap_def lookup_def bind_def example_loss_def)

lemma ex_advantages:
  "advantages (example_loss c) (example_estimated c) 5 = Inr (\<lparr>shape = [4], elems = [1, - 1, 2, - 2]\<rparr>, c)"
  by (simp add: advantages_def td_get_tensor_def example_estimated_def example_heap_def lookup_def bind_def
      example_loss_def)

lemma ex_actor_inputs:
  "actor_inputs (example_loss c) example_heap 3 True =
     Inr (example_estimated c, 5, [''loss_lagrangian'' \<mapsto> - (3 * ln 2), ''lagrangian'' \<mapsto> ln 2],
          \<lparr>shape = [4], elems = [0, 0, 0, 0]\<rparr>, (),
          \<lparr>shape = [4], elems = [1, - 1, 2, - 2]\<rparr>, c)"
  unfolding actor_inputs_def ex_copy
  by (simp add: bind_def ex_dual ex_estimates ex_advantages)
     (simp add: example_loss_def)

lemma ex_actor_inputs_off:
  "actor_inputs (example_loss c) example_heap 3 False =
     Inr (example_estimated c, 5, [''lagrangian'' \<mapsto> ln 2],
          \<lparr>shape = [4], elems = [0, 0, 0, 0]\<rparr>, (),
          \<lparr>shape = [4], elems = [1, - 1, 2, - 2]\<rparr>, c)"
  unfolding actor_inputs_def ex_copy
  by (simp add: bind_def ex_dual_off ex_estimates ex_advantages)
     (simp add: example_loss_def)

lemma ex_clip: "min (max 0 (ln (4 / 5))) (ln (6 / 5)) = (0::real)"
proof -
  have "ln (4 / 5) \<le> (0::real)" "(0::real) \<le> ln (6 / 5)"
    by simp_all
  then show ?thesis by simp
qed

lemma ex_loss_pi:
  "loss_pi (ln 2) (ln (4 / 5), ln (6 / 5)) \<lparr>shape = [4], elems = [0, 0, 0, 0]\<rparr>
     \<lparr>shape = [4], elems = [1, - 1, 2, - 2]\<rparr> \<lparr>shape = [4], elems = [0, 0, 0, 0]\<rparr> = Inr 0"
  by (simp add: loss_pi_spec spec_actor_loss_def ex_clip)

lemma ex_critic_r:
  "critic_loss (example_loss c) (example_estimated c) 5 [''r_value_target'']
     (critic (example_loss c)) () [''r_value'']
   = Inr (example_r_critic c, \<lparr>shape = [4, 1], elems = [1, 4, 9, 16]\<rparr>)"
  by (simp add: critic_loss_def td_get_tensor_def td_set_tensor_def example_estimated_def example_r_critic_def
      example_heap_def lookup_def bind_def example_loss_def tensor_scale_def tensor_map_def
      tensor_map2_def)

lemma ex_critic_c:
  "critic_loss (example_loss c) (example_r_critic c) 5 [''c_value_target'']
     (safe_critic (example_loss c)) () [''c_value'']
   = Inr (example_final c, \<lparr>shape = [4, 1], elems = [100, 400, 900, 1600]\<rparr>)"
  by (simp add: critic_loss_def td_get_tensor_def td_set_tensor_def example_r_critic_def example_final_def
      example_heap_def lookup_def bind_def example_loss_def tensor_scale_def tensor_map_def
      tensor_map2_def)

lemma ex_forward:
  "forward (example_loss \<lparr>shape = [4], elems = [0, 0, 0, 0]\<rparr>) example_heap 3 True =
     Inr (example_final \<lparr>shape = [4], elems = [0, 0, 0, 0]\<rparr>,
          [''loss_lagrangian'' \<mapsto> - (3 * ln 2), ''lagrangian'' \<mapsto> ln 2, ''loss_pi'' \<mapsto> 0,
           ''loss_entropy'' \<mapsto> - (1 / 100), ''entropy'' \<mapsto> 1,
           ''loss_r_critic'' \<mapsto> 15 / 2, ''loss_c_critic'' \<mapsto> 750])"
  unfolding forward_def ex_actor_inputs
  by (simp add: bind_def ex_fields ex_loss_pi ex_critic_r ex_critic_c tensor_mean_def numel_def)

lemma ex_forward_off:
  "forward (example_loss \<lparr>shape = [4], elems = [0, 0, 0, 0]\<rparr>) example_heap 3 False =
     Inr (example_final \<lparr>shape = [4], elems = [0, 0, 0, 0]\<rparr>,
          [''lagrangian'' \<mapsto> ln 2, ''loss_pi'' \<mapsto> 0,
           ''loss_entropy'' \<mapsto> - (1 / 100), ''entropy'' \<mapsto> 1,
           ''loss_r_critic'' \<mapsto> 15 / 2, ''loss_c_critic'' \<mapsto> 750])"
  unfolding forward_def ex_actor_inputs_off
  by (simp add: bind_def ex_fields ex_loss_pi ex_critic_r ex_critic_c tensor_mean_def numel_def)

lemma ex_avg_violation:
  "td_get_tensor example_heap 3 [''avg_violation''] = Inr \<lparr>shape = [4], elems = [1, 2, 3, 6]\<rparr>"
  by (simp add: td_get_tensor_def example_heap_def lookup_def bind_def)

lemma ex_reward:
  "td_get_tensor example_heap 3 [''next'', ''reward''] =
     Inr \<lparr>shape = [4, 2], elems = [1, 10, 2, 20, 3, 30, 4, 40]\<rparr>"
  by (simp add: td_get_tensor_def example_heap_def lookup_def bind_def)

lemma ex_std:
  "tensor_std \<lparr>shape = [4], elems = [1, - 1, 2, - 2]\<rparr> = sqrt (10 / 3)"
  by (simp add: tensor_std_def tensor_mean_def numel_def)

lemma ex_std_floor: "1 / 10 ^ 6 \<le> tensor_std \<lparr>shape = [4], elems = [1, - 1, 2, - 2]\<rparr>"
  unfolding ex_std by (rule real_le_rsqrt) (simp add: power_divide)

subsection \<open>The loss computation\<close>



text \<open>
  Claim C2, as amended. When a dual update is requested, \<^verbatim>\<open>PPOLagLoss.forward\<close> emits
  \<^verbatim>\<open>loss_lagrangian\<close> \<open>= - softplus raw * mean avg_violation\<close>, with no scale factor; when
  none is requested it emits no \<^verbatim>\<open>loss_lagrangian\<close>. \<^verbatim>\<open>NaiveLagrange.forward\<close> returns
  \<open>- softplus raw * avg_violation * cost_scale\<close>, element by element, \<open>cost_scale\<close> being
  its argument.
\<close>

theorem lagrange_loss_emitted:
  "(forward self h tdict True = Inr (h', td_out) \<longrightarrow>
      td_get_tensor h tdict [''avg_violation''] = Inr av \<longrightarrow>
      td_out ''loss_lagrangian'' = Some (- softplus (lag self) * tensor_mean av)) \<and>
   (forward self h tdict False = Inr (h'', td_out') \<longrightarrow> td_out' ''loss_lagrangian'' = None) \<and>
   (td_get_tensor h tdict [''avg_violation''] = Inr av \<longrightarrow>
      NaiveLagrange_forward nl h tdict cost_scale =
        Inr (tensor_map (\<lambda>v. - softplus (NaiveLagrange.lag nl) * v * cost_scale) av))"
proof (intro conjI impI)
  assume fw: "forward self h tdict True = Inr (h', td_out)"
    and av: "td_get_tensor h tdict [''avg_violation''] = Inr av"
  from forward_loss_lagrangian [OF fw] obtain h1 tmp out1
    where copy: "scratch_copy h tdict = Inr (h1, tmp)"
      and dual: "dual_loss self h1 tdict True = Inr out1"
      and out: "td_out ''loss_lagrangian'' = out1 ''loss_lagrangian''"
    by blast
  have "take (length h) h1 = h"
    using scratch_copy_scratch(1) [OF copy] by (simp add: scratch_inv_def)
  then have "td_get_tensor h1 tdict [''avg_violation''] = Inr av"
    by (rule td_get_tensor_prefix [OF av])
  then have "out1 ''loss_lagrangian'' = Some (- softplus (lag self) * tensor_mean av)"
    using dual by (auto simp: dual_loss_def bind_def lagrangian_loss_def)
  then show "td_out ''loss_lagrangian'' = Some (- softplus (lag self) * tensor_mean av)"
    using out by simp
next
  assume fw: "forward self h tdict False = Inr (h'', td_out')"
  from forward_loss_lagrangian [OF fw] obtain h1 tmp out1
    where dual: "dual_loss self h1 tdict False = Inr out1"
      and out: "td_out' ''loss_lagrangian'' = out1 ''loss_lagrangian''"
    by blast
  have "out1 ''loss_lagrangian'' = None"
    using dual by (auto simp: dual_loss_def)
  then show "td_out' ''loss_lagrangian'' = None" using out by simp
next
  assume "td_get_tensor h tdict [''avg_violation''] = Inr av"
  then show "NaiveLagrange_forward nl h tdict cost_scale =
        Inr (tensor_map (\<lambda>v. - softplus (NaiveLagrange.lag nl) * v * cost_scale) av)"
    by (simp add: NaiveLagrange_forward_def bind_def lagrangian_loss_def)
qed

theorem lagrange_loss_emitted_witness:
  "snd (projr (forward (example_loss \<lparr>shape = [4], elems = [0, 0, 0, 0]\<rparr>) example_heap 3 True))
     ''loss_lagrangian'' = Some (- softplus 0 * 3) \<and>
   snd (projr (forward (example_loss \<lparr>shape = [4], elems = [0, 0, 0, 0]\<rparr>) example_heap 3 False))
     ''loss_lagrangian'' = None \<and>
   NaiveLagrange_forward \<lparr>NaiveLagrange.lag = 0, cost_limit = 25\<rparr> example_heap 3 2 =
     Inr \<lparr>shape = [4], elems = [- softplus 0 * 1 * 2, - softplus 0 * 2 * 2,
                                 - softplus 0 * 3 * 2, - softplus 0 * 6 * 2]\<rparr>"
  using lagrange_loss_emitted
      [where self = "example_loss \<lparr>shape = [4], elems = [0, 0, 0, 0]\<rparr>"
        and h = example_heap and tdict = 3
        and h' = "fst (projr (forward (example_loss \<lparr>shape = [4], elems = [0, 0, 0, 0]\<rparr>)
                     example_heap 3 True))"
        and td_out = "snd (projr (forward (example_loss \<lparr>shape = [4], elems = [0, 0, 0, 0]\<rparr>)
                     example_heap 3 True))"
        and h'' = "fst (projr (forward (example_loss \<lparr>shape = [4], elems = [0, 0, 0, 0]\<rparr>)
                     example_heap 3 False))"
        and td_out' = "snd (projr (forward (example_loss \<lparr>shape = [4], elems = [0, 0, 0, 0]\<rparr>)
                     example_heap 3 False))"
        and av = "\<lparr>shape = [4], elems = [1, 2, 3, 6]\<rparr>"
        and nl = "\<lparr>NaiveLagrange.lag = 0, cost_limit = 25\<rparr>" and cost_scale = 2]
    ex_avg_violation
  by (simp add: ex_forward ex_forward_off ex_lag tensor_mean_def numel_def tensor_map_def
      softplus_def)

theorem lagrange_loss_counterexample:
  "\<not> isl (forward (example_loss \<lparr>shape = [4], elems = [0, 0, 0, 0]\<rparr>) example_heap 3 True) \<and>
   td_get_tensor example_heap 3 [''avg_violation''] = Inr \<lparr>shape = [4], elems = [1, 2, 3, 6]\<rparr> \<and>
   snd (projr (forward (example_loss \<lparr>shape = [4], elems = [0, 0, 0, 0]\<rparr>) example_heap 3 True))
     ''loss_lagrangian''
     \<noteq> Some (- softplus (lag (example_loss \<lparr>shape = [4], elems = [0, 0, 0, 0]\<rparr>))
               * tensor_mean \<lparr>shape = [4], elems = [1, 2, 3, 6]\<rparr> * 2)"
proof -
  have "ln 2 \<noteq> (0::real)" by simp
  then show ?thesis
    by (simp add: ex_forward ex_avg_violation ex_lag softplus_def tensor_mean_def numel_def)
qed

text \<open>
  Claim advantage_standardized. With advantage normalization enabled, each of the two advantages is
  standardized on its own. A tensor of more than one element becomes
  \<open>(advantage - mean) / max std 1e-6\<close>, whose mean is 0 and whose standard deviation is 1
  when the standard deviation of the advantage is at least \<open>1e-6\<close>; a tensor of exactly one
  element is left as it is.
\<close>

theorem advantage_standardized:
  "(normalize_advantage self \<longrightarrow> td_get_tensor h tmp (advantage_key self) = Inr r \<longrightarrow>
      td_get_tensor h tmp (c_advantage_key self) = Inr c \<longrightarrow>
      advantages self h tmp = Inr (standardize r, standardize c)) \<and>
   (1 < numel adv \<longrightarrow>
      standardize adv =
        tensor_map (\<lambda>x. (x - tensor_mean adv) / max (tensor_std adv) (1 / 10 ^ 6)) adv \<and>
      (1 / 10 ^ 6 \<le> tensor_std adv \<longrightarrow>
         tensor_mean (standardize adv) = 0 \<and> tensor_std (standardize adv) = 1)) \<and>
   (numel adv = 1 \<longrightarrow> standardize adv = adv)"
proof (intro conjI impI)
  assume "normalize_advantage self" "td_get_tensor h tmp (advantage_key self) = Inr r"
    "td_get_tensor h tmp (c_advantage_key self) = Inr c"
  then show "advantages self h tmp = Inr (standardize r, standardize c)"
    by (simp add: advantages_def bind_def)
next
  assume "1 < numel adv"
  then show "standardize adv =
        tensor_map (\<lambda>x. (x - tensor_mean adv) / max (tensor_std adv) (1 / 10 ^ 6)) adv"
    by (simp add: standardize_def Let_def)
next
  assume n: "1 < numel adv" and sd: "1 / 10 ^ 6 \<le> tensor_std adv"
  define xs where "xs = elems adv"
  define m where "m = tensor_mean adv"
  define s where "s = tensor_std adv"
  have len: "1 < length xs" using n by (simp add: numel_def xs_def)
  then have ne: "xs \<noteq> []" by auto
  have spos: "0 < s" using sd unfolding s_def by (simp add: less_le_trans [of 0 "1 / 10 ^ 6"])
  have m: "m = sum_list xs / real (length xs)"
    by (simp add: m_def tensor_mean_def numel_def xs_def)
  have st: "standardize adv = \<lparr>shape = shape adv, elems = map (\<lambda>x. (x - m) / s) xs\<rparr>"
    using n sd by (simp add: standardize_def Let_def tensor_map_def m_def s_def xs_def max_def)
  have mean0: "tensor_mean (standardize adv) = 0"
    unfolding st using mean_standardized [OF ne, of s]
    by (simp add: tensor_mean_def numel_def m)
  have s2: "s\<^sup>2 = sum_list (map (\<lambda>x. (x - m)\<^sup>2) xs) / real (length xs - 1)"
  proof -
    have "0 \<le> sum_list (map (\<lambda>x. (x - m)\<^sup>2) xs) / real (length xs - 1)"
      by (intro divide_nonneg_nonneg sum_list_nonneg) auto
    then show ?thesis
      by (simp add: s_def tensor_std_def numel_def xs_def [symmetric] m_def [symmetric])
  qed
  have "tensor_std (standardize adv) =
          sqrt (sum_list (map (\<lambda>y. y\<^sup>2) (map (\<lambda>x. (x - m) / s) xs)) / real (length xs - 1))"
    unfolding tensor_std_def mean0 unfolding st by (simp add: numel_def comp_def)
  also have "\<dots> = sqrt (sum_list (map (\<lambda>x. (x - m)\<^sup>2) xs) / s\<^sup>2 / real (length xs - 1))"
    by (simp only: sum_list_squares_scaled)
  also have "\<dots> = sqrt (s\<^sup>2 / s\<^sup>2)"
    unfolding s2 [symmetric] using s2 by (simp add: field_simps)
  also have "\<dots> = 1" using spos by simp
  finally have std1: "tensor_std (standardize adv) = 1" .
  show "tensor_mean (standardize adv) = 0" by (rule mean0)
  show "tensor_std (standardize adv) = 1" by (rule std1)
next
  assume "numel adv = 1"
  then show "standardize adv = adv" by (simp add: standardize_def)
qed

theorem advantage_standardized_witness:
  "advantages ((example_loss \<lparr>shape = [1], elems = [5]\<rparr>)\<lparr>normalize_advantage := True\<rparr>)
     (example_estimated \<lparr>shape = [1], elems = [5]\<rparr>) 5
     = Inr (standardize \<lparr>shape = [4], elems = [1, - 1, 2, - 2]\<rparr>,
            standardize \<lparr>shape = [1], elems = [5]\<rparr>) \<and>
   standardize \<lparr>shape = [4], elems = [1, - 1, 2, - 2]\<rparr> =
     tensor_map (\<lambda>x. (x - tensor_mean \<lparr>shape = [4], elems = [1, - 1, 2, - 2]\<rparr>)
                       / max (tensor_std \<lparr>shape = [4], elems = [1, - 1, 2, - 2]\<rparr>) (1 / 10 ^ 6))
       \<lparr>shape = [4], elems = [1, - 1, 2, - 2]\<rparr> \<and>
   tensor_mean (standardize \<lparr>shape = [4], elems = [1, - 1, 2, - 2]\<rparr>) = 0 \<and>
   tensor_std (standardize \<lparr>shape = [4], elems = [1, - 1, 2, - 2]\<rparr>) = 1 \<and>
   standardize \<lparr>shape = [1], elems = [5]\<rparr> = \<lparr>shape = [1], elems = [5]\<rparr>"
proof -
  have g1: "td_get_tensor (example_estimated \<lparr>shape = [1], elems = [5]\<rparr>) 5
              (advantage_key ((example_loss \<lparr>shape = [1], elems = [5]\<rparr>)\<lparr>normalize_advantage := True\<rparr>))
            = Inr \<lparr>shape = [4], elems = [1, - 1, 2, - 2]\<rparr>"
    by (simp add: td_get_tensor_def example_estimated_def example_heap_def lookup_def bind_def
        example_loss_def)
  have g2: "td_get_tensor (example_estimated \<lparr>shape = [1], elems = [5]\<rparr>) 5
              (c_advantage_key ((example_loss \<lparr>shape = [1], elems = [5]\<rparr>)\<lparr>normalize_advantage := True\<rparr>))
            = Inr \<lparr>shape = [1], elems = [5]\<rparr>"
    by (simp add: td_get_tensor_def example_estimated_def example_heap_def lookup_def bind_def
        example_loss_def)
  have n: "normalize_advantage ((example_loss \<lparr>shape = [1], elems = [5]\<rparr>)\<lparr>normalize_advantage := True\<rparr>)"
    by simp
  note t1 = advantage_standardized [where self = "(example_loss \<lparr>shape = [1], elems = [5]\<rparr>)\<lparr>normalize_advantage := True\<rparr>"
        and h = "example_estimated \<lparr>shape = [1], elems = [5]\<rparr>" and tmp = 5
        and r = "\<lparr>shape = [4], elems = [1, - 1, 2, - 2]\<rparr>"
        and c = "\<lparr>shape = [1], elems = [5]\<rparr>"
        and adv = "\<lparr>shape = [4], elems = [1, - 1, 2, - 2]\<rparr>"]
  note t2 = advantage_standardized [where self = "(example_loss \<lparr>shape = [1], elems = [5]\<rparr>)\<lparr>normalize_advantage := True\<rparr>"
        and h = "example_estimated \<lparr>shape = [1], elems = [5]\<rparr>" and tmp = 5
        and r = "\<lparr>shape = [4], elems = [1, - 1, 2, - 2]\<rparr>"
        and c = "\<lparr>shape = [1], elems = [5]\<rparr>"
        and adv = "\<lparr>shape = [1], elems = [5]\<rparr>"]
  have n4: "1 < numel \<lparr>shape = [4], elems = [1, - 1, 2, - 2]\<rparr>"
    by (simp add: numel_def)
  have n1: "numel \<lparr>shape = [1], elems = [5]\<rparr> = 1"
    by (simp add: numel_def)
  have a: "advantages ((example_loss \<lparr>shape = [1], elems = [5]\<rparr>)\<lparr>normalize_advantage := True\<rparr>)
     (example_estimated \<lparr>shape = [1], elems = [5]\<rparr>) 5
     = Inr (standardize \<lparr>shape = [4], elems = [1, - 1, 2, - 2]\<rparr>,
            standardize \<lparr>shape = [1], elems = [5]\<rparr>)"
    using t1 n g1 g2 by blast
  have b: "standardize \<lparr>shape = [4], elems = [1, - 1, 2, - 2]\<rparr> =
     tensor_map (\<lambda>x. (x - tensor_mean \<lparr>shape = [4], elems = [1, - 1, 2, - 2]\<rparr>)
                       / max (tensor_std \<lparr>shape = [4], elems = [1, - 1, 2, - 2]\<rparr>) (1 / 10 ^ 6))
       \<lparr>shape = [4], elems = [1, - 1, 2, - 2]\<rparr>"
    using t1 n4 by blast
  have c: "tensor_mean (standardize \<lparr>shape = [4], elems = [1, - 1, 2, - 2]\<rparr>) = 0 \<and>
           tensor_std (standardize \<lparr>shape = [4], elems = [1, - 1, 2, - 2]\<rparr>) = 1"
    using t1 n4 ex_std_floor by blast
  have d: "standardize \<lparr>shape = [1], elems = [5]\<rparr> = \<lparr>shape = [1], elems = [5]\<rparr>"
    using t2 n1 by blast
  show ?thesis
    using a b c d by (intro conjI) simp_all
qed

text \<open>
  Claim C8. When the log-weight, the reward advantage and the cost advantage that reach
  the assertion of line 99 do not all have the same shape, the call fails with the
  assertion error: it returns no output mapping, and the gains are not computed.
\<close>

theorem shape_mismatch_fails:
  assumes "actor_inputs self h tdict train = Inr (h6, tmp, td_out, log_w, d, r_adv, c_adv)"
    and "\<not> (shape c_adv = shape log_w \<and> shape r_adv = shape log_w)"
  shows "forward self h tdict train = Inl AssertionError"
proof -
  have "loss_pi (lagrangian self) (clip_bounds self) log_w r_adv c_adv = Inl AssertionError"
    using assms(2) by (simp add: loss_pi_def)
  then show ?thesis
    by (simp add: forward_def assms(1) bind_def)
qed

theorem shape_mismatch_fails_witness:
  "forward (example_loss \<lparr>shape = [3], elems = [0, 0, 0]\<rparr>) example_heap 3 True
     = Inl AssertionError"
  using shape_mismatch_fails [OF ex_actor_inputs [of "\<lparr>shape = [3], elems = [0, 0, 0]\<rparr>"]]
  by simp

text \<open>
  Claim C9, as amended. In every call that gets past the two estimators, the reward
  estimator is called on the scratch copy with \<^verbatim>\<open>('next', 'reward')\<close> set to \<^verbatim>\<open>reward[:, :1]\<close>,
  the slice of the second dimension, and with the reward-critic parameters. The cost
  estimator is then called on the same scratch copy, in the heap that the reward
  estimator's writes have left, with \<^verbatim>\<open>('next', 'reward')\<close> replaced by \<^verbatim>\<open>reward[:, 1:]\<close>, and with
  the cost-critic parameters; its writes go to the same scratch copy and give the heap from
  which the advantages are read. When the reward has the shape \<open>[n, 2]\<close>, and so \<open>2 * n\<close>
  elements, the two slices are channel 0 and channel 1 of the reward, each of shape \<open>[n, 1]\<close>. For a reward with more
  dimensions the slices are not the channels: of a reward of shape \<open>[1, 2, 2]\<close> the reward
  estimator is given both channels of the first entry of the second dimension.
\<close>

theorem estimators_share_scratch:
  assumes "scratch_copy h tdict = Inr (h1, tmp)"
    and "td_get_tensor h tdict [''next'', ''reward''] = Inr reward"
    and "value_estimates self h1 tdict tmp = Inr h5"
  shows "\<exists>r0 h2 ws h3 r1 h4 ws'.
           index_cols reward 0 (Some 1) = Inr r0 \<and>
           r_estimator_heap h1 tdict tmp = Inr h2 \<and>
           td_get_tensor h2 tmp [''next'', ''reward''] = Inr r0 \<and>
           r_value_estimator self (critic_params self) (target_critic_params self) h2 tmp
             = Inr ws \<and>
           td_write h2 tmp ws = Inr h3 \<and>
           index_cols reward 1 None = Inr r1 \<and>
           td_set_tensor h3 tmp [''next'', ''reward''] r1 = Inr h4 \<and>
           td_get_tensor h4 tmp [''next'', ''reward''] = Inr r1 \<and>
           c_value_estimator self (safe_critic_params self) (target_safe_critic_params self)
             h4 tmp = Inr ws' \<and>
           td_write h4 tmp ws' = Inr h5 \<and>
           (shape reward = [n, 2] \<and> length (elems reward) = 2 * n \<longrightarrow>
              r0 = \<lparr>shape = [n, 1], elems = map (\<lambda>i. elems reward ! (2 * i)) [0..<n]\<rparr> \<and>
              r1 = \<lparr>shape = [n, 1], elems = map (\<lambda>i. elems reward ! (2 * i + 1)) [0..<n]\<rparr>)"
proof -
  from assms(3) obtain h4 ws'
    where c4: "c_estimator_heap self h1 tdict tmp = Inr h4"
      and est': "c_value_estimator self (safe_critic_params self)
                   (target_safe_critic_params self) h4 tmp = Inr ws'"
      and s4: "td_write h4 tmp ws' = Inr h5"
    by (auto simp: value_estimates_def bind_eq_Inr)
  from c4 obtain h2 ws h3
    where s1: "r_estimator_heap h1 tdict tmp = Inr h2"
      and est: "r_value_estimator self (critic_params self) (target_critic_params self) h2 tmp
                  = Inr ws"
      and s2: "td_write h2 tmp ws = Inr h3"
      and s3: "estimator_input h3 tdict tmp 1 None = Inr h4"
    by (auto simp: c_estimator_heap_def bind_eq_Inr)
  have tmp: "length h \<le> tmp" by (rule scratch_copy_scratch(2) [OF assms(1)])
  have i1: "scratch_inv h h1" by (rule scratch_copy_scratch(1) [OF assms(1)])
  have i2: "scratch_inv h h2"
    using s1 unfolding r_estimator_heap_def by (rule estimator_input_scratch [OF _ tmp i1])
  have i3: "scratch_inv h h3" by (rule td_write_scratch [OF s2 tmp i2])
  have g1: "td_get_tensor h1 tdict [''next'', ''reward''] = Inr reward"
    using i1 by (intro td_get_tensor_prefix [OF assms(2)]) (simp add: scratch_inv_def)
  have g3: "td_get_tensor h3 tdict [''next'', ''reward''] = Inr reward"
    using i3 by (intro td_get_tensor_prefix [OF assms(2)]) (simp add: scratch_inv_def)
  from estimator_input_reads [OF s1 [unfolded r_estimator_heap_def] g1] obtain r0
    where r0: "index_cols reward 0 (Some 1) = Inr r0"
      and get0: "td_get_tensor h2 tmp [''next'', ''reward''] = Inr r0"
    by blast
  from estimator_input_reads [OF s3 g3] obtain r1
    where r1: "index_cols reward 1 None = Inr r1"
      and set1: "td_set_tensor h3 tmp [''next'', ''reward''] r1 = Inr h4"
      and get1: "td_get_tensor h4 tmp [''next'', ''reward''] = Inr r1"
    by blast
  have ch: "r0 = \<lparr>shape = [n, 1], elems = map (\<lambda>i. elems reward ! (2 * i)) [0..<n]\<rparr> \<and>
            r1 = \<lparr>shape = [n, 1], elems = map (\<lambda>i. elems reward ! (2 * i + 1)) [0..<n]\<rparr>"
    if "shape reward = [n, 2] \<and> length (elems reward) = 2 * n"
    using index_cols_channel [of reward n] that r0 r1 by simp
  show ?thesis
    using r0 s1 get0 est s2 r1 set1 get1 est' s4 ch by blast
qed

theorem estimators_share_scratch_witness:
  "\<exists>r0 h2 ws h3 r1 h4 ws'.
     index_cols \<lparr>shape = [4, 2], elems = [1, 10, 2, 20, 3, 30, 4, 40]\<rparr> 0 (Some 1) = Inr r0 \<and>
     r_estimator_heap example_copy 3 5 = Inr h2 \<and>
     td_get_tensor h2 5 [''next'', ''reward''] = Inr r0 \<and>
     r_value_estimator (example_loss \<lparr>shape = [4], elems = [0, 0, 0, 0]\<rparr>) () () h2 5 = Inr ws \<and>
     td_write h2 5 ws = Inr h3 \<and>
     index_cols \<lparr>shape = [4, 2], elems = [1, 10, 2, 20, 3, 30, 4, 40]\<rparr> 1 None = Inr r1 \<and>
     td_set_tensor h3 5 [''next'', ''reward''] r1 = Inr h4 \<and>
     td_get_tensor h4 5 [''next'', ''reward''] = Inr r1 \<and>
     c_value_estimator (example_loss \<lparr>shape = [4], elems = [0, 0, 0, 0]\<rparr>) () () h4 5 = Inr ws' \<and>
     td_write h4 5 ws' = Inr (example_estimated \<lparr>shape = [4], elems = [0, 0, 0, 0]\<rparr>) \<and>
     r0 = \<lparr>shape = [4, 1], elems = [1, 2, 3, 4]\<rparr> \<and>
     r1 = \<lparr>shape = [4, 1], elems = [10, 20, 30, 40]\<rparr>"
  using estimators_share_scratch [OF ex_copy ex_reward ex_estimates, where n = 4]
  by (simp add: ex_fields upt_rec)

theorem estimators_share_scratch_counterexample:
  "scratch_copy example_heap 3 = Inr (example_copy, 5) \<and>
   c_estimator_heap (example_loss \<lparr>shape = [4], elems = [0, 0, 0, 0]\<rparr>) example_copy 3 5 = Inr example_c_heap \<and>
   td_get_tensor example_c_heap 5 [''r_advantage''] = Inr \<lparr>shape = [4], elems = [1, - 1, 2, - 2]\<rparr> \<and>
   td_get_tensor example_heap 3 [''r_advantage''] = Inl KeyError \<and>
   index_cols \<lparr>shape = [1, 2, 2], elems = [1, 10, 2, 20]\<rparr> 0 (Some 1)
     = Inr \<lparr>shape = [1, 1, 2], elems = [1, 10]\<rparr> \<and>
   index_cols \<lparr>shape = [1, 2, 2], elems = [1, 10, 2, 20]\<rparr> 1 None
     = Inr \<lparr>shape = [1, 1, 2], elems = [2, 20]\<rparr>"
  by (simp add: ex_copy ex_c_heap)
     (simp add: td_get_tensor_def example_c_heap_def example_heap_def lookup_def bind_def
        index_cols_def)

text \<open>
  Claim C10. When a call of \<^verbatim>\<open>forward\<close> returns, every object that the heap held before
  the call is unchanged, so every key of the input batch reads the tensor it read before;
  in particular \<^verbatim>\<open>('next', 'reward')\<close>. All writes go to objects made during the call.
\<close>

theorem forward_leaves_batch:
  assumes "forward self h tdict train = Inr (h', td_out)"
    and "td_get_tensor h tdict ks = Inr t"
  shows "take (length h) h' = h \<and> td_get_tensor h' tdict ks = Inr t"
proof -
  have "scratch_inv h h'" by (rule forward_scratch [OF assms(1)])
  then have pre: "take (length h) h' = h" by (simp add: scratch_inv_def)
  then show ?thesis using td_get_tensor_prefix [OF assms(2) pre] by simp
qed

theorem forward_leaves_batch_witness:
  "take (length example_heap) (example_final \<lparr>shape = [4], elems = [0, 0, 0, 0]\<rparr>) = example_heap \<and>
   td_get_tensor (example_final \<lparr>shape = [4], elems = [0, 0, 0, 0]\<rparr>) 3 [''next'', ''reward''] =
     Inr \<lparr>shape = [4, 2], elems = [1, 10, 2, 20, 3, 30, 4, 40]\<rparr>"
  using forward_leaves_batch [OF ex_forward ex_reward] .

end
